theory Spec2Isabelle
  imports Main
begin

section \<open>Data model of \<open>app/loadout-builder/mod-utils.ts\<close>\<close>

text \<open>
  \<open>DestinyEnergyType\<close> is a numeric enum of the Bungie API types; at run time a value
  of it is a number, and the module tests it for truthiness (\<open>energyType || Any\<close>), so
  it is modelled by its number. \<open>DestinyEnergyType.Any\<close> is the enum's member 0.
\<close>

type_synonym DestinyEnergyType = nat

definition DestinyEnergyType_Any :: DestinyEnergyType where
  "DestinyEnergyType_Any = 0"

text \<open>\<open>mod.plug.energyCost\<close>: the energy type and the amount of a mod's cost.\<close>

record DestinyEnergyCost =
  energyType :: DestinyEnergyType
  energyCost :: int

text \<open>
  A mod (\<open>PluggableInventoryItemDefinition\<close>). The module reads \<open>plug.energyCost\<close>
  (which may be absent) and \<open>plug.plugCategoryHash\<close>; \<open>mod_hash\<close> is the definition's
  own hash and stands for all that the module does not read, so that two mods can agree
  on cost and category and still be two mods.
\<close>

record PluggableInventoryItemDefinition =
  mod_hash :: nat
  plug_energyCost :: "DestinyEnergyCost option"
  plug_plugCategoryHash :: nat

text \<open>\<open>item.energy\<close>, of which the module reads the energy type only.\<close>

record DimItemEnergy =
  item_energyType :: DestinyEnergyType

record DimItem =
  item_id :: string
  item_hash :: nat
  bucket_hash :: nat
  energy :: "DimItemEnergy option"

record ModSocketMetadata =
  compatibleModTags :: "string list"

text \<open>An arrangement of mods over the slot positions: \<open>(Mod | null)[]\<close>.\<close>

type_synonym permutation = "PluggableInventoryItemDefinition option list"

text \<open>
  What the module imports and this file does not hold: the static category tables, the
  helpers on items and plug categories, the two functions of the upgrade spend tier and
  the permutation generator. The module is verified for every value of them.
\<close>

record ('defs, 'tier) externals =
  armor2PlugCategoryHashesByName_general :: nat
  combatCompatiblePlugCategoryHashes :: "nat list"
  raidModPlugCategoryHashes :: "nat list"
  bucketsToCategories :: "nat \<rightharpoonup> nat"
  getModTypeTagByPlugCategoryHash :: "nat \<Rightarrow> string option"
  getSpecialtySocketMetadatas :: "DimItem \<Rightarrow> ModSocketMetadata list option"
  canSwapEnergyFromUpgradeSpendTier :: "'defs \<Rightarrow> 'tier \<Rightarrow> DimItem \<Rightarrow> bool"
  upgradeSpendTierToMaxEnergy :: "'defs \<Rightarrow> 'tier \<Rightarrow> DimItem \<Rightarrow> int"
  generatePermutationsOfFive ::
    "PluggableInventoryItemDefinition list \<Rightarrow> (permutation \<Rightarrow> string) \<Rightarrow> permutation list"

section \<open>The energy predicates\<close>

text \<open>
  \<open>doEnergiesMatch\<close>: \<open>item.energy && (!cost || cost.energyType === Any ||
  cost.energyType === item.energy.energyType || canSwap(defs, tier, item))\<close>, read as
  a truth value.
\<close>

definition doEnergiesMatch ::
  "('defs, 'tier) externals \<Rightarrow> 'defs \<Rightarrow> PluggableInventoryItemDefinition \<Rightarrow> DimItem \<Rightarrow> 'tier \<Rightarrow> bool"
where
  "doEnergiesMatch ext defs md item upgradeSpendTier =
     (case energy item of
        None \<Rightarrow> False
      | Some e \<Rightarrow>
          (case plug_energyCost md of
             None \<Rightarrow> True
           | Some c \<Rightarrow>
               energyType c = DestinyEnergyType_Any \<or>
               energyType c = item_energyType e \<or>
               canSwapEnergyFromUpgradeSpendTier ext defs upgradeSpendTier item))"

text \<open>
  \<open>someModHasEnergyRequirement\<close>:
  \<open>mods.some((mod) => !mod.plug.energyCost || mod.plug.energyCost.energyType !== Any)\<close>.
\<close>

definition someModHasEnergyRequirement :: "PluggableInventoryItemDefinition list \<Rightarrow> bool" where
  "someModHasEnergyRequirement mods =
     list_ex (\<lambda>md. case plug_energyCost md of
                      None \<Rightarrow> True
                    | Some c \<Rightarrow> energyType c \<noteq> DestinyEnergyType_Any) mods"

text \<open>
  The test between two energy types that the search writes out at each of its uses
  (lines 126-128, 163-168, 200-208): \<open>a === b || a === Any || b === Any\<close>, with the
  operands in the order of the first of them.
\<close>

definition energyTypesCompatible :: "DestinyEnergyType \<Rightarrow> DestinyEnergyType \<Rightarrow> bool" where
  "energyTypesCompatible a b =
     (a = b \<or> a = DestinyEnergyType_Any \<or> b = DestinyEnergyType_Any)"

section \<open>The deduplication key\<close>

text \<open>
  A number inside a template literal is written in decimal. The type and the category
  hash are naturals, the amount is an integer, and an absent cost gives the text
  \<open>undefined\<close> for both of its parts (\<open>energy?.energyType\<close> of no energy).
\<close>

definition digit_char :: "nat \<Rightarrow> char" where
  "digit_char d = char_of (48 + d)"

fun showNat :: "nat \<Rightarrow> string" where
  "showNat n = (if n < 10 then [digit_char n] else showNat (n div 10) @ [digit_char (n mod 10)])"

definition showInt :: "int \<Rightarrow> string" where
  "showInt i = (if i < 0 then CHR ''-'' # showNat (nat (- i)) else showNat (nat i))"

definition showOptNat :: "nat option \<Rightarrow> string" where
  "showOptNat v = (case v of None \<Rightarrow> ''undefined'' | Some n \<Rightarrow> showNat n)"

definition showOptInt :: "int option \<Rightarrow> string" where
  "showOptInt v = (case v of None \<Rightarrow> ''undefined'' | Some i \<Rightarrow> showInt i)"

text \<open>
  The text appended for a mod:
  \<open>`(${energy?.energyType},${energy?.energyCost},${modOrNull.plug.plugCategoryHash})`\<close>.
\<close>

definition modString :: "PluggableInventoryItemDefinition \<Rightarrow> string" where
  "modString md =
     (let energy = plug_energyCost md in
      ''('' @ showOptNat (map_option energyType energy) @ '','' @
      showOptInt (map_option energyCost energy) @ '','' @
      showNat (plug_plugCategoryHash md) @ '')'')"

text \<open>The loop of \<open>stringifyMods\<close>, with \<open>permutationString\<close> as its accumulator.\<close>

fun stringifyLoop :: "permutation \<Rightarrow> string \<Rightarrow> string" where
  "stringifyLoop [] permutationString = permutationString"
| "stringifyLoop (modOrNull # rest) permutationString =
     stringifyLoop rest
       ((case modOrNull of
           None \<Rightarrow> permutationString
         | Some md \<Rightarrow> permutationString @ modString md) @ '','')"

definition stringifyMods :: "permutation \<Rightarrow> string" where
  "stringifyMods permutation = stringifyLoop permutation []"

text \<open>
  The triple of a position that the key is made of: nothing for \<open>null\<close>, and for a mod
  its cost's type and amount (both absent when the mod has no cost) and its category.
\<close>

definition modTriple :: "PluggableInventoryItemDefinition \<Rightarrow> nat option \<times> int option \<times> nat" where
  "modTriple md =
     (map_option energyType (plug_energyCost md),
      map_option energyCost (plug_energyCost md),
      plug_plugCategoryHash md)"

text \<open>
  Two positions of two arrangements hold the same thing for the key: both hold \<open>null\<close>,
  or both hold mods of equal triples.
\<close>

definition samePosition ::
  "PluggableInventoryItemDefinition option \<Rightarrow> PluggableInventoryItemDefinition option \<Rightarrow> bool"
where
  "samePosition x y \<longleftrightarrow>
     (x = None \<and> y = None) \<or>
     (\<exists>a b. x = Some a \<and> y = Some b \<and> modTriple a = modTriple b)"

text \<open>
  For the proofs about the key: the characters of a decimal numeral, the three
  characters that structure the key, and what one pass of the loop appends.
\<close>

definition is_digit :: "char \<Rightarrow> bool" where
  "is_digit c \<longleftrightarrow> 48 \<le> (of_char c :: nat) \<and> (of_char c :: nat) < 58"

definition is_sep :: "char \<Rightarrow> bool" where
  "is_sep c \<longleftrightarrow> c = CHR '','' \<or> c = CHR ''('' \<or> c = CHR '')''"

definition elemString :: "PluggableInventoryItemDefinition option \<Rightarrow> string" where
  "elemString x = (case x of None \<Rightarrow> [] | Some md \<Rightarrow> modString md) @ [CHR '','']"

text \<open>
  Modelled from the spec: the deduplication inside \<open>generatePermutationsOfFive\<close>, a
  function of \<open>./utils\<close> whose code is not among the source files. The specification
  (4.3) says of it that ``two arrangements whose key strings are equal are treated as
  one entry''. Of the arrangements that the generator enumerates, in whatever order,
  \<open>dedupByKey\<close> keeps one per key: an arrangement is dropped when an earlier one had its
  key. \<open>seen\<close> holds the keys met so far.
\<close>

fun dedupLoop :: "('a \<Rightarrow> string) \<Rightarrow> 'a list \<Rightarrow> string list \<Rightarrow> 'a list" where
  "dedupLoop key [] seen = []"
| "dedupLoop key (x # rest) seen =
     (if key x \<in> set seen then dedupLoop key rest seen
      else x # dedupLoop key rest (key x # seen))"

definition dedupByKey :: "('a \<Rightarrow> string) \<Rightarrow> 'a list \<Rightarrow> 'a list" where
  "dedupByKey key arrangements = dedupLoop key arrangements []"

section \<open>The solver \<open>getModAssignments\<close>\<close>

subsection \<open>Its local state\<close>

text \<open>
  \<open>assignments\<close> is a JavaScript \<open>Map\<close>: its entries keep the order of their first
  insertion, and \<open>set\<close> on a key it holds replaces the value where it stands.
  \<open>Map_push k x\<close> is \<open>assignments.get(k)?.push(x)\<close>: nothing happens on a missing key.
\<close>

type_synonym assignment_map = "(string \<times> PluggableInventoryItemDefinition list) list"

fun Map_set :: "'k \<Rightarrow> 'v \<Rightarrow> ('k \<times> 'v) list \<Rightarrow> ('k \<times> 'v) list" where
  "Map_set k v [] = [(k, v)]"
| "Map_set k v ((k', v') # rest) =
     (if k' = k then (k, v) # rest else (k', v') # Map_set k v rest)"

definition Map_get :: "('k \<times> 'v) list \<Rightarrow> 'k \<Rightarrow> 'v option" where
  "Map_get m k = map_of m k"

fun Map_push :: "'k \<Rightarrow> 'a \<Rightarrow> ('k \<times> 'a list) list \<Rightarrow> ('k \<times> 'a list) list" where
  "Map_push k x [] = []"
| "Map_push k x ((k', l) # rest) =
     (if k' = k then (k', l @ [x]) # rest else (k', l) # Map_push k x rest)"

text \<open>The values of \<open>itemEnergies\<close>.\<close>

record itemEnergy =
  used :: int
  capacity :: int
  etype :: DestinyEnergyType

text \<open>
  The source leaves no mark where a loop takes up a permutation, nor at the comment
  \<open>// calculate best mod assignment here\<close> that a triple reaches when all its checks
  pass. The model writes an event at each of these four points, so that what the loops
  examine and what they accept can be stated. Events are only ever appended, and no
  check reads them.
\<close>

datatype event =
    ExamineCombat permutation
  | ExamineGeneral permutation permutation
  | ExamineRaid permutation permutation permutation
  | Candidate permutation permutation permutation

text \<open>
  The locals of \<open>getModAssignments\<close> that hold mutable objects, and the events.
  \<open>itemEnergies\<close> is a plain object keyed by item id, read by key only.
\<close>

record locals =
  assignments :: assignment_map
  generalMods :: "PluggableInventoryItemDefinition list"
  combatMods :: "PluggableInventoryItemDefinition list"
  raidMods :: "PluggableInventoryItemDefinition list"
  itemEnergies :: "string \<rightharpoonup> itemEnergy"
  events :: "event list"

definition log_event :: "event \<Rightarrow> locals \<Rightarrow> locals" where
  "log_event e st = st\<lparr>events := events st @ [e]\<rparr>"

subsection \<open>Before the search\<close>

text \<open>\<open>for (const item of items) assignments.set(item.id, [])\<close>.\<close>

fun initAssignments :: "DimItem list \<Rightarrow> assignment_map \<Rightarrow> assignment_map" where
  "initAssignments [] a = a"
| "initAssignments (item # rest) a = initAssignments rest (Map_set (item_id item) [] a)"

text \<open>
  \<open>_.keyBy(items, (item) => item.id)\<close>: of two items with one id the later one stays.
  \<open>_.mapValues\<close> applies a function to each value.
\<close>

definition keyBy :: "DimItem list \<Rightarrow> (string \<rightharpoonup> DimItem)" where
  "keyBy items = fold (\<lambda>item m. m(item_id item \<mapsto> item)) items Map.empty"

definition mapValues :: "('k \<rightharpoonup> 'a) \<Rightarrow> ('a \<Rightarrow> 'b) \<Rightarrow> ('k \<rightharpoonup> 'b)" where
  "mapValues m f = (\<lambda>k. map_option f (m k))"

definition itemSocketMetadata ::
  "('defs, 'tier) externals \<Rightarrow> DimItem list \<Rightarrow> (string \<rightharpoonup> ModSocketMetadata list option)"
where
  "itemSocketMetadata ext items = mapValues (keyBy items) (getSpecialtySocketMetadatas ext)"

text \<open>
  \<open>m?.plug.energyCost?.energyCost || 0\<close> and \<open>m?.plug.energyCost?.energyType || Any\<close>
  of a mod or \<open>null\<close>: the default stands in for an absent and for a falsy value.
\<close>

definition energyCostOf :: "PluggableInventoryItemDefinition option \<Rightarrow> int" where
  "energyCostOf m =
     (case m of
        None \<Rightarrow> 0
      | Some md \<Rightarrow>
          (case plug_energyCost md of
             None \<Rightarrow> 0
           | Some c \<Rightarrow> if energyCost c = 0 then 0 else energyCost c))"

definition energyTypeOf :: "PluggableInventoryItemDefinition option \<Rightarrow> DestinyEnergyType" where
  "energyTypeOf m =
     (case m of
        None \<Rightarrow> DestinyEnergyType_Any
      | Some md \<Rightarrow>
          (case plug_energyCost md of
             None \<Rightarrow> DestinyEnergyType_Any
           | Some c \<Rightarrow> if energyType c = 0 then DestinyEnergyType_Any else energyType c))"

text \<open>
  \<open>items.find((item) => mod.plug.plugCategoryHash === bucketsToCategories[item.bucket.hash])\<close>:
  the first such item; a bucket without an entry in the table matches no mod.
\<close>

definition itemForMod ::
  "('defs, 'tier) externals \<Rightarrow> DimItem list \<Rightarrow> PluggableInventoryItemDefinition \<Rightarrow> DimItem option"
where
  "itemForMod ext items md =
     find (\<lambda>item. Some (plug_plugCategoryHash md) = bucketsToCategories ext (bucket_hash item))
       items"

text \<open>The body of the loop over \<open>mods\<close> (lines 77-90), and the loop.\<close>

definition partitionStep ::
  "('defs, 'tier) externals \<Rightarrow> DimItem list \<Rightarrow> PluggableInventoryItemDefinition \<Rightarrow> locals \<Rightarrow> locals"
where
  "partitionStep ext items md st =
     (if plug_plugCategoryHash md = armor2PlugCategoryHashesByName_general ext then
        st\<lparr>generalMods := generalMods st @ [md]\<rparr>
      else if plug_plugCategoryHash md \<in> set (combatCompatiblePlugCategoryHashes ext) then
        st\<lparr>combatMods := combatMods st @ [md]\<rparr>
      else if plug_plugCategoryHash md \<in> set (raidModPlugCategoryHashes ext) then
        st\<lparr>raidMods := raidMods st @ [md]\<rparr>
      else
        (case itemForMod ext items md of
           None \<Rightarrow> st
         | Some item \<Rightarrow> st\<lparr>assignments := Map_push (item_id item) md (assignments st)\<rparr>))"

fun partitionMods ::
  "('defs, 'tier) externals \<Rightarrow> DimItem list \<Rightarrow> PluggableInventoryItemDefinition list \<Rightarrow>
   locals \<Rightarrow> locals"
where
  "partitionMods ext items [] st = st"
| "partitionMods ext items (md # rest) st =
     partitionMods ext items rest (partitionStep ext items md st)"

text \<open>
  \<open>itemEnergies\<close> (lines 92-102). \<open>_.sumBy\<close> of no list is 0.
\<close>

definition sumBy :: "'a list option \<Rightarrow> ('a \<Rightarrow> int) \<Rightarrow> int" where
  "sumBy xs f = (case xs of None \<Rightarrow> 0 | Some l \<Rightarrow> sum_list (map f l))"

definition energyOfItem ::
  "('defs, 'tier) externals \<Rightarrow> 'defs \<Rightarrow> 'tier \<Rightarrow> assignment_map \<Rightarrow> DimItem \<Rightarrow> itemEnergy"
where
  "energyOfItem ext defs upgradeSpendTier asg item =
     \<lparr>used = sumBy (Map_get asg (item_id item)) (\<lambda>md. energyCostOf (Some md)),
      capacity = upgradeSpendTierToMaxEnergy ext defs upgradeSpendTier item,
      etype =
        (case energy item of
           None \<Rightarrow> DestinyEnergyType_Any
         | Some e \<Rightarrow>
             if canSwapEnergyFromUpgradeSpendTier ext defs upgradeSpendTier item
             then DestinyEnergyType_Any
             else item_energyType e)\<rparr>"

definition buildItemEnergies ::
  "('defs, 'tier) externals \<Rightarrow> 'defs \<Rightarrow> 'tier \<Rightarrow> DimItem list \<Rightarrow> assignment_map \<Rightarrow>
   (string \<rightharpoonup> itemEnergy)"
where
  "buildItemEnergies ext defs upgradeSpendTier items asg =
     mapValues (keyBy items) (energyOfItem ext defs upgradeSpendTier asg)"

subsection \<open>The checks at one index\<close>

text \<open>
  \<open>p[i]\<close> of an array of mods and \<open>null\<close>s: past the end it is \<open>undefined\<close>, which the
  loops treat as they treat \<open>null\<close>.
\<close>

definition modAt :: "permutation \<Rightarrow> nat \<Rightarrow> PluggableInventoryItemDefinition option" where
  "modAt p i = (if i < length p then p ! i else None)"

text \<open>
  \<open>modTag && itemSocketMetadata[item.id]?.some((metadata) =>
  metadata.compatibleModTags.includes(modTag))\<close>: an absent and an empty tag are falsy.
\<close>

definition socketAccepts ::
  "(string \<rightharpoonup> ModSocketMetadata list option) \<Rightarrow> string \<Rightarrow> string option \<Rightarrow> bool"
where
  "socketAccepts metadataById itemId modTag =
     (case modTag of
        None \<Rightarrow> False
      | Some tag \<Rightarrow>
          tag \<noteq> [] \<and>
          (case metadataById itemId of
             None \<Rightarrow> False
           | Some None \<Rightarrow> False
           | Some (Some metadatas) \<Rightarrow>
               list_ex (\<lambda>metadata. tag \<in> set (compatibleModTags metadata)) metadatas))"

text \<open>
  The body of each of the three loops over \<open>i\<close>. The value is \<open>True\<close> when the body
  goes on to the next index (the mod is \<open>null\<close>, or the test passes) and \<open>False\<close> when
  it leaves for the next permutation (\<open>continue combatModLoop\<close> and its two likes).
  They are called with \<open>i < items.length\<close> only, so \<open>items[i]\<close> is an item.
  \<open>energies\<close> is the value of the local \<open>itemEnergies\<close> at the time of the check.
\<close>

definition combatItemStep ::
  "('defs, 'tier) externals \<Rightarrow> DimItem list \<Rightarrow> (string \<rightharpoonup> itemEnergy) \<Rightarrow> permutation \<Rightarrow>
   nat \<Rightarrow> bool"
where
  "combatItemStep ext items energies combatP i =
     (case modAt combatP i of
        None \<Rightarrow> True
      | Some combatMod \<Rightarrow>
          (let item = items ! i;
               itemEnergy = energies (item_id item);
               modTag = getModTypeTagByPlugCategoryHash ext (plug_plugCategoryHash combatMod);
               combatEnergyCost = energyCostOf (Some combatMod);
               combatEnergyType = energyTypeOf (Some combatMod);
               combatEnergyIsValid =
                 (case itemEnergy of
                    None \<Rightarrow> False
                  | Some e \<Rightarrow>
                      used e + combatEnergyCost \<le> capacity e \<and>
                      (etype e = combatEnergyType \<or>
                       combatEnergyType = DestinyEnergyType_Any \<or>
                       etype e = DestinyEnergyType_Any))
           in combatEnergyIsValid \<and>
              socketAccepts (itemSocketMetadata ext items) (item_id item) modTag))"

definition generalItemStep ::
  "DimItem list \<Rightarrow> (string \<rightharpoonup> itemEnergy) \<Rightarrow> permutation \<Rightarrow> permutation \<Rightarrow> nat \<Rightarrow> bool"
where
  "generalItemStep items energies combatP generalP i =
     (case modAt generalP i of
        None \<Rightarrow> True
      | Some generalMod \<Rightarrow>
          (let item = items ! i;
               itemEnergy = energies (item_id item);
               generalEnergyCost = energyCostOf (Some generalMod);
               generalEnergyType = energyTypeOf (Some generalMod);
               combatEnergyCost = energyCostOf (modAt combatP i);
               combatEnergyType = energyTypeOf (modAt combatP i);
               generalEnergyIsValid =
                 (case itemEnergy of
                    None \<Rightarrow> False
                  | Some e \<Rightarrow>
                      used e + generalEnergyCost + combatEnergyCost \<le> capacity e \<and>
                      (etype e = generalEnergyType \<or>
                       generalEnergyType = DestinyEnergyType_Any \<or>
                       etype e = DestinyEnergyType_Any) \<and>
                      energyTypesCompatible generalEnergyType combatEnergyType)
           in generalEnergyIsValid))"

definition raidItemStep ::
  "('defs, 'tier) externals \<Rightarrow> DimItem list \<Rightarrow> (string \<rightharpoonup> itemEnergy) \<Rightarrow> permutation \<Rightarrow>
   permutation \<Rightarrow> permutation \<Rightarrow> nat \<Rightarrow> bool"
where
  "raidItemStep ext items energies combatP generalP raidP i =
     (case modAt raidP i of
        None \<Rightarrow> True
      | Some raidMod \<Rightarrow>
          (let item = items ! i;
               itemEnergy = energies (item_id item);
               modTag = getModTypeTagByPlugCategoryHash ext (plug_plugCategoryHash raidMod);
               raidEnergyCost = energyCostOf (Some raidMod);
               raidEnergyType = energyTypeOf (Some raidMod);
               generalEnergyCost = energyCostOf (modAt generalP i);
               generalEnergyType = energyTypeOf (modAt generalP i);
               combatEnergyCost = energyCostOf (modAt combatP i);
               combatEnergyType = energyTypeOf (modAt combatP i);
               raidEnergyIsValid =
                 (case itemEnergy of
                    None \<Rightarrow> False
                  | Some e \<Rightarrow>
                      used e + generalEnergyCost + combatEnergyCost + raidEnergyCost
                        \<le> capacity e \<and>
                      (etype e = raidEnergyType \<or>
                       raidEnergyType = DestinyEnergyType_Any \<or>
                       etype e = DestinyEnergyType_Any) \<and>
                      energyTypesCompatible raidEnergyType generalEnergyType \<and>
                      energyTypesCompatible raidEnergyType combatEnergyType)
           in raidEnergyIsValid \<and>
              socketAccepts (itemSocketMetadata ext items) (item_id item) modTag))"

subsection \<open>The loops\<close>

text \<open>
  A loop \<open>for (let i = 0; i < items.length; i++)\<close> whose body either goes on or leaves
  for the next permutation: it stops at the first index whose step fails. \<open>True\<close> means
  that the loop ran to its end, so that control falls through to what follows it.
\<close>

fun itemLoop :: "(nat \<Rightarrow> bool) \<Rightarrow> nat list \<Rightarrow> bool" where
  "itemLoop step [] = True"
| "itemLoop step (i # rest) = (if step i then itemLoop step rest else False)"

definition combatItemLoop ::
  "('defs, 'tier) externals \<Rightarrow> DimItem list \<Rightarrow> (string \<rightharpoonup> itemEnergy) \<Rightarrow> permutation \<Rightarrow> bool"
where
  "combatItemLoop ext items energies combatP =
     itemLoop (combatItemStep ext items energies combatP) [0..<length items]"

definition generalItemLoop ::
  "DimItem list \<Rightarrow> (string \<rightharpoonup> itemEnergy) \<Rightarrow> permutation \<Rightarrow> permutation \<Rightarrow> bool"
where
  "generalItemLoop items energies combatP generalP =
     itemLoop (generalItemStep items energies combatP generalP) [0..<length items]"

definition raidItemLoop ::
  "('defs, 'tier) externals \<Rightarrow> DimItem list \<Rightarrow> (string \<rightharpoonup> itemEnergy) \<Rightarrow> permutation \<Rightarrow>
   permutation \<Rightarrow> permutation \<Rightarrow> bool"
where
  "raidItemLoop ext items energies combatP generalP raidP =
     itemLoop (raidItemStep ext items energies combatP generalP raidP) [0..<length items]"

text \<open>The three loops over the permutations, innermost first.\<close>

fun raidModLoop ::
  "('defs, 'tier) externals \<Rightarrow> DimItem list \<Rightarrow> permutation \<Rightarrow> permutation \<Rightarrow>
   permutation list \<Rightarrow> locals \<Rightarrow> locals"
where
  "raidModLoop ext items combatP generalP [] st = st"
| "raidModLoop ext items combatP generalP (raidP # rest) st =
     raidModLoop ext items combatP generalP rest
       (let st1 = log_event (ExamineRaid combatP generalP raidP) st in
        if raidItemLoop ext items (itemEnergies st1) combatP generalP raidP
        then log_event (Candidate combatP generalP raidP) st1
        else st1)"

fun generalModLoop ::
  "('defs, 'tier) externals \<Rightarrow> DimItem list \<Rightarrow> permutation list \<Rightarrow> permutation \<Rightarrow>
   permutation list \<Rightarrow> locals \<Rightarrow> locals"
where
  "generalModLoop ext items raidModPermutations combatP [] st = st"
| "generalModLoop ext items raidModPermutations combatP (generalP # rest) st =
     generalModLoop ext items raidModPermutations combatP rest
       (let st1 = log_event (ExamineGeneral combatP generalP) st in
        if generalItemLoop items (itemEnergies st1) combatP generalP
        then raidModLoop ext items combatP generalP raidModPermutations st1
        else st1)"

fun combatModLoop ::
  "('defs, 'tier) externals \<Rightarrow> DimItem list \<Rightarrow> permutation list \<Rightarrow> permutation list \<Rightarrow>
   permutation list \<Rightarrow> locals \<Rightarrow> locals"
where
  "combatModLoop ext items generalModPermutations raidModPermutations [] st = st"
| "combatModLoop ext items generalModPermutations raidModPermutations (combatP # rest) st =
     combatModLoop ext items generalModPermutations raidModPermutations rest
       (let st1 = log_event (ExamineCombat combatP) st in
        if combatItemLoop ext items (itemEnergies st1) combatP
        then generalModLoop ext items raidModPermutations combatP generalModPermutations st1
        else st1)"

subsection \<open>The function\<close>

text \<open>
  The locals as the function sets them up (lines 62-75), as they stand when the search
  begins (line 107), and as they stand when the function returns; the function returns \<open>assignments\<close>. The source has no
  \<open>throw\<close>, and none of its reads can fail on values of its parameter types, so the
  model has no error value.
\<close>

definition initialLocals :: "DimItem list \<Rightarrow> locals" where
  "initialLocals items =
     \<lparr>assignments = initAssignments items [], generalMods = [], combatMods = [],
      raidMods = [], itemEnergies = Map.empty, events = []\<rparr>"

definition beforeSearch ::
  "('defs, 'tier) externals \<Rightarrow> DimItem list \<Rightarrow> PluggableInventoryItemDefinition list \<Rightarrow>
   'defs \<Rightarrow> 'tier \<Rightarrow> locals"
where
  "beforeSearch ext items mods defs upgradeSpendTier =
     (let st1 = partitionMods ext items mods (initialLocals items)
      in st1\<lparr>itemEnergies :=
               buildItemEnergies ext defs upgradeSpendTier items (assignments st1)\<rparr>)"

definition afterSearch ::
  "('defs, 'tier) externals \<Rightarrow> DimItem list \<Rightarrow> PluggableInventoryItemDefinition list \<Rightarrow>
   'defs \<Rightarrow> 'tier \<Rightarrow> locals"
where
  "afterSearch ext items mods defs upgradeSpendTier =
     (let st = beforeSearch ext items mods defs upgradeSpendTier;
          generalModPermutations = generatePermutationsOfFive ext (generalMods st) stringifyMods;
          combatModPermutations = generatePermutationsOfFive ext (combatMods st) stringifyMods;
          raidModPermutations = generatePermutationsOfFive ext (raidMods st) stringifyMods
      in combatModLoop ext items generalModPermutations raidModPermutations
           combatModPermutations st)"

definition getModAssignments ::
  "('defs, 'tier) externals \<Rightarrow> DimItem list \<Rightarrow> PluggableInventoryItemDefinition list \<Rightarrow>
   'defs \<Rightarrow> 'tier \<Rightarrow> assignment_map"
where
  "getModAssignments ext items mods defs upgradeSpendTier =
     assignments (afterSearch ext items mods defs upgradeSpendTier)"

subsection \<open>The search without early exit\<close>

text \<open>
  The variant that the specification compares the search with: at each level all the
  checks of a permutation are evaluated, one per index, and only then is it decided
  whether the permutation goes on. Everything else is as in the loops above.
\<close>

definition itemLoopNaive :: "(nat \<Rightarrow> bool) \<Rightarrow> nat list \<Rightarrow> bool" where
  "itemLoopNaive step indices = (let results = map step indices in list_all (\<lambda>ok. ok) results)"

fun raidModLoopNaive ::
  "('defs, 'tier) externals \<Rightarrow> DimItem list \<Rightarrow> permutation \<Rightarrow> permutation \<Rightarrow>
   permutation list \<Rightarrow> locals \<Rightarrow> locals"
where
  "raidModLoopNaive ext items combatP generalP [] st = st"
| "raidModLoopNaive ext items combatP generalP (raidP # rest) st =
     raidModLoopNaive ext items combatP generalP rest
       (let st1 = log_event (ExamineRaid combatP generalP raidP) st in
        if itemLoopNaive (raidItemStep ext items (itemEnergies st1) combatP generalP raidP)
             [0..<length items]
        then log_event (Candidate combatP generalP raidP) st1
        else st1)"

fun generalModLoopNaive ::
  "('defs, 'tier) externals \<Rightarrow> DimItem list \<Rightarrow> permutation list \<Rightarrow> permutation \<Rightarrow>
   permutation list \<Rightarrow> locals \<Rightarrow> locals"
where
  "generalModLoopNaive ext items raidModPermutations combatP [] st = st"
| "generalModLoopNaive ext items raidModPermutations combatP (generalP # rest) st =
     generalModLoopNaive ext items raidModPermutations combatP rest
       (let st1 = log_event (ExamineGeneral combatP generalP) st in
        if itemLoopNaive (generalItemStep items (itemEnergies st1) combatP generalP)
             [0..<length items]
        then raidModLoopNaive ext items combatP generalP raidModPermutations st1
        else st1)"

fun combatModLoopNaive ::
  "('defs, 'tier) externals \<Rightarrow> DimItem list \<Rightarrow> permutation list \<Rightarrow> permutation list \<Rightarrow>
   permutation list \<Rightarrow> locals \<Rightarrow> locals"
where
  "combatModLoopNaive ext items generalModPermutations raidModPermutations [] st = st"
| "combatModLoopNaive ext items generalModPermutations raidModPermutations (combatP # rest) st =
     combatModLoopNaive ext items generalModPermutations raidModPermutations rest
       (let st1 = log_event (ExamineCombat combatP) st in
        if itemLoopNaive (combatItemStep ext items (itemEnergies st1) combatP)
             [0..<length items]
        then generalModLoopNaive ext items raidModPermutations combatP
               generalModPermutations st1
        else st1)"

definition afterSearchNaive ::
  "('defs, 'tier) externals \<Rightarrow> DimItem list \<Rightarrow> PluggableInventoryItemDefinition list \<Rightarrow>
   'defs \<Rightarrow> 'tier \<Rightarrow> locals"
where
  "afterSearchNaive ext items mods defs upgradeSpendTier =
     (let st = beforeSearch ext items mods defs upgradeSpendTier;
          generalModPermutations = generatePermutationsOfFive ext (generalMods st) stringifyMods;
          combatModPermutations = generatePermutationsOfFive ext (combatMods st) stringifyMods;
          raidModPermutations = generatePermutationsOfFive ext (raidMods st) stringifyMods
      in combatModLoopNaive ext items generalModPermutations raidModPermutations
           combatModPermutations st)"

text \<open>The triples that a run has accepted, read off its events.\<close>

definition accepted :: "locals \<Rightarrow> (permutation \<times> permutation \<times> permutation) set" where
  "accepted st = {(combatP, generalP, raidP). Candidate combatP generalP raidP \<in> set (events st)}"

section \<open>Concrete inputs\<close>

text \<open>
  Mods: one without a cost, and costed ones of the general category (hash 1), of a
  combat category (hash 2), of a raid category (hash 3) and of the category of bucket
  10 (hash 4). Energy type 1 is Arc and 2 is Thermal.
\<close>

definition costlessMod :: PluggableInventoryItemDefinition where
  "costlessMod = \<lparr>mod_hash = 100, plug_energyCost = None, plug_plugCategoryHash = 4\<rparr>"

definition anyCostMod :: PluggableInventoryItemDefinition where
  "anyCostMod =
     \<lparr>mod_hash = 101,
      plug_energyCost = Some \<lparr>energyType = DestinyEnergyType_Any, energyCost = 4\<rparr>,
      plug_plugCategoryHash = 1\<rparr>"

definition arcCombatMod :: PluggableInventoryItemDefinition where
  "arcCombatMod =
     \<lparr>mod_hash = 102, plug_energyCost = Some \<lparr>energyType = 1, energyCost = 5\<rparr>,
      plug_plugCategoryHash = 2\<rparr>"

definition arcRaidMod :: PluggableInventoryItemDefinition where
  "arcRaidMod =
     \<lparr>mod_hash = 103, plug_energyCost = Some \<lparr>energyType = 1, energyCost = 1\<rparr>,
      plug_plugCategoryHash = 3\<rparr>"

definition arcSlotMod :: PluggableInventoryItemDefinition where
  "arcSlotMod =
     \<lparr>mod_hash = 104, plug_energyCost = Some \<lparr>energyType = 1, energyCost = 5\<rparr>,
      plug_plugCategoryHash = 4\<rparr>"

text \<open>
  A second mod with the cost and the category of \<open>arcCombatMod\<close>, a mod of a category
  (hash 9) that no table and no bucket knows, and a mod with a negative amount.
\<close>

definition arcCombatTwin :: PluggableInventoryItemDefinition where
  "arcCombatTwin =
     \<lparr>mod_hash = 105, plug_energyCost = Some \<lparr>energyType = 1, energyCost = 5\<rparr>,
      plug_plugCategoryHash = 2\<rparr>"

definition strayMod :: PluggableInventoryItemDefinition where
  "strayMod =
     \<lparr>mod_hash = 106, plug_energyCost = Some \<lparr>energyType = 1, energyCost = 1\<rparr>,
      plug_plugCategoryHash = 9\<rparr>"

definition negativeSlotMod :: PluggableInventoryItemDefinition where
  "negativeSlotMod =
     \<lparr>mod_hash = 107, plug_energyCost = Some \<lparr>energyType = 1, energyCost = - 3\<rparr>,
      plug_plugCategoryHash = 4\<rparr>"

text \<open>Arrangements: nothing anywhere, and one mod in front.\<close>

definition allNull :: permutation where
  "allNull = [None, None, None, None, None]"

definition inFront :: "PluggableInventoryItemDefinition \<Rightarrow> permutation" where
  "inFront md = [Some md, None, None, None, None]"

text \<open>
  Items: an Arc item of bucket 10, an item without energy, an item whose own energy
  type is \<open>Any\<close>, a Thermal item and a second Arc item; and the five of them as
  the slots of one call.
\<close>

definition arcItem :: DimItem where
  "arcItem =
     \<lparr>item_id = ''a'', item_hash = 200, bucket_hash = 10,
      energy = Some \<lparr>item_energyType = 1\<rparr>\<rparr>"

definition noEnergyItem :: DimItem where
  "noEnergyItem = \<lparr>item_id = ''b'', item_hash = 201, bucket_hash = 11, energy = None\<rparr>"

definition anyEnergyItem :: DimItem where
  "anyEnergyItem =
     \<lparr>item_id = ''c'', item_hash = 202, bucket_hash = 12,
      energy = Some \<lparr>item_energyType = DestinyEnergyType_Any\<rparr>\<rparr>"

definition thermalItem :: DimItem where
  "thermalItem =
     \<lparr>item_id = ''d'', item_hash = 203, bucket_hash = 13,
      energy = Some \<lparr>item_energyType = 2\<rparr>\<rparr>"

definition secondArcItem :: DimItem where
  "secondArcItem =
     \<lparr>item_id = ''e'', item_hash = 204, bucket_hash = 14,
      energy = Some \<lparr>item_energyType = 1\<rparr>\<rparr>"

text \<open>An item without energy that carries the id of \<open>arcItem\<close>.\<close>

definition noEnergyTwin :: DimItem where
  "noEnergyTwin = \<lparr>item_id = ''a'', item_hash = 205, bucket_hash = 15, energy = None\<rparr>"

definition fiveItems :: "DimItem list" where
  "fiveItems = [arcItem, noEnergyItem, anyEnergyItem, thermalItem, secondArcItem]"

text \<open>
  Values for the imports. The capacity of every item is the number given as the upgrade
  spend tier, no item may swap its energy, every item has one socket that takes the
  tags \<open>combat\<close> and \<open>raid\<close>, and the stand-in for the permutation generator gives the
  arrangement of five \<open>null\<close>s and, for each mod, the one with that mod in front.
\<close>

definition exampleExternals :: "(unit, nat) externals" where
  "exampleExternals =
     \<lparr>armor2PlugCategoryHashesByName_general = 1,
      combatCompatiblePlugCategoryHashes = [2],
      raidModPlugCategoryHashes = [3],
      bucketsToCategories = [10 \<mapsto> 4],
      getModTypeTagByPlugCategoryHash =
        (\<lambda>h. if h = 2 then Some ''combat'' else if h = 3 then Some ''raid'' else None),
      getSpecialtySocketMetadatas =
        (\<lambda>item. Some [\<lparr>compatibleModTags = [''combat'', ''raid'']\<rparr>]),
      canSwapEnergyFromUpgradeSpendTier = (\<lambda>defs tier item. False),
      upgradeSpendTierToMaxEnergy = (\<lambda>defs tier item. int tier),
      generatePermutationsOfFive =
        (\<lambda>mods key. allNull # map inFront mods)\<rparr>"

text \<open>
  What the specification calls malformed input: fewer or more than five slots, or a
  negative resource amount.
\<close>

definition malformedInput ::
  "DimItem list \<Rightarrow> PluggableInventoryItemDefinition list \<Rightarrow> bool"
where
  "malformedInput items mods \<longleftrightarrow>
     length items \<noteq> 5 \<or>
     list_ex (\<lambda>md. case plug_energyCost md of None \<Rightarrow> False | Some c \<Rightarrow> energyCost c < 0) mods"

section \<open>The energy predicates: results\<close>

text \<open>
  What \<open>someModHasEnergyRequirement\<close> computes: it is true exactly when some mod of
  the collection has no cost at all or has a cost whose type is not \<open>Any\<close>.
\<close>

lemma someModHasEnergyRequirement_iff:
  "someModHasEnergyRequirement mods \<longleftrightarrow>
     (\<exists>md \<in> set mods. plug_energyCost md = None \<or>
        (\<exists>c. plug_energyCost md = Some c \<and> energyType c \<noteq> DestinyEnergyType_Any))"
proof -
  have "(case x of None \<Rightarrow> True | Some c \<Rightarrow> energyType c \<noteq> DestinyEnergyType_Any) \<longleftrightarrow>
        (x = None \<or> (\<exists>c. x = Some c \<and> energyType c \<noteq> DestinyEnergyType_Any))"
    for x :: "DestinyEnergyCost option"
    by (cases x) simp_all
  then show ?thesis
    unfolding someModHasEnergyRequirement_def list_ex_iff by simp
qed

text \<open>
  C4. The comment above \<open>someModHasEnergyRequirement\<close> asks for a mod with an
  elemental (non-Any) energy requirement, and so does the claim: a collection whose
  mods have no cost or a cost of type \<open>Any\<close> should give false. The function answers
  true for the collection of the one mod without a cost.
\<close>

theorem someModHasEnergyRequirement_costless:
  "someModHasEnergyRequirement [costlessMod] = True"
  by (simp add: someModHasEnergyRequirement_def costlessMod_def)

text \<open>
  C5 as stated fails: \<open>Any\<close> is compatible with Arc (1) and with Thermal (2), which
  are not compatible with each other, so the relation is not transitive.
\<close>

theorem energyTypesCompatible_not_transitive:
  "energyTypesCompatible 1 DestinyEnergyType_Any \<and>
   energyTypesCompatible DestinyEnergyType_Any 2 \<and>
   \<not> energyTypesCompatible 1 2"
  by (simp add: energyTypesCompatible_def DestinyEnergyType_Any_def)

text \<open>
  C5, amended. The test between two energy types is symmetric, and it passes from
  \<open>a, b\<close> and \<open>b, c\<close> to \<open>a, c\<close> whenever the type in the middle is not \<open>Any\<close>.
\<close>

theorem energyTypesCompatible_symmetric_and_transitive_through_element:
  "energyTypesCompatible a b = energyTypesCompatible b a \<and>
   (b \<noteq> DestinyEnergyType_Any \<longrightarrow> energyTypesCompatible a b \<longrightarrow>
      energyTypesCompatible b c \<longrightarrow> energyTypesCompatible a c)"
  unfolding energyTypesCompatible_def by auto

theorem energyTypesCompatible_witness:
  "energyTypesCompatible DestinyEnergyType_Any 2 = energyTypesCompatible 2 DestinyEnergyType_Any \<and>
   (2::nat) \<noteq> DestinyEnergyType_Any \<and>
   energyTypesCompatible DestinyEnergyType_Any 2 \<and>
   energyTypesCompatible 2 1 = False \<and>
   energyTypesCompatible 2 2 \<and>
   energyTypesCompatible DestinyEnergyType_Any 2"
  using energyTypesCompatible_symmetric_and_transitive_through_element
          [of DestinyEnergyType_Any 2 2]
  by (simp add: energyTypesCompatible_def DestinyEnergyType_Any_def)

text \<open>
  C6. \<open>doEnergiesMatch\<close> is false for an item without energy; for an item with energy
  it is true whenever the mod has no cost or a cost of type \<open>Any\<close>, whatever the item's
  energy type and whatever \<open>canSwapEnergyFromUpgradeSpendTier\<close> answers.
\<close>

theorem doEnergiesMatch_item_without_energy_and_agnostic_mod:
  "(energy item = None \<longrightarrow> \<not> doEnergiesMatch ext defs md item upgradeSpendTier) \<and>
   (energy item \<noteq> None \<longrightarrow>
      (plug_energyCost md = None \<or>
       (\<exists>c. plug_energyCost md = Some c \<and> energyType c = DestinyEnergyType_Any)) \<longrightarrow>
      doEnergiesMatch ext defs md item upgradeSpendTier)"
  unfolding doEnergiesMatch_def by (auto split: option.splits)

theorem doEnergiesMatch_witness:
  "energy noEnergyItem = None \<and>
   \<not> doEnergiesMatch exampleExternals () anyCostMod noEnergyItem 0 \<and>
   energy arcItem \<noteq> None \<and>
   plug_energyCost costlessMod = None \<and>
   doEnergiesMatch exampleExternals () costlessMod arcItem 0 \<and>
   (\<exists>c. plug_energyCost anyCostMod = Some c \<and> energyType c = DestinyEnergyType_Any) \<and>
   doEnergiesMatch exampleExternals () anyCostMod arcItem 0"
  using doEnergiesMatch_item_without_energy_and_agnostic_mod
          [of noEnergyItem exampleExternals "()" anyCostMod 0]
        doEnergiesMatch_item_without_energy_and_agnostic_mod
          [of arcItem exampleExternals "()" costlessMod 0]
        doEnergiesMatch_item_without_energy_and_agnostic_mod
          [of arcItem exampleExternals "()" anyCostMod 0]
  by (simp add: noEnergyItem_def arcItem_def costlessMod_def anyCostMod_def)

section \<open>The deduplication key: results\<close>

declare showNat.simps [simp del]

lemma digit_char_code: "d < 10 \<Longrightarrow> (of_char (digit_char d) :: nat) = 48 + d"
  unfolding digit_char_def by (simp add: of_char_of)

lemma digit_char_inj: "a < 10 \<Longrightarrow> b < 10 \<Longrightarrow> digit_char a = digit_char b \<Longrightarrow> a = b"
proof -
  assume a: "a < 10" and b: "b < 10" and eq: "digit_char a = digit_char b"
  have "(of_char (digit_char a) :: nat) = of_char (digit_char b)" by (simp only: eq)
  then have "48 + a = 48 + b" by (simp only: digit_char_code[OF a] digit_char_code[OF b])
  then show ?thesis by simp
qed

lemma showNat_ne: "showNat n \<noteq> []"
  by (subst showNat.simps) simp

lemma is_digit_digit_char: "d < 10 \<Longrightarrow> is_digit (digit_char d)"
  by (simp add: is_digit_def digit_char_code)

lemma showNat_digits: "c \<in> set (showNat n) \<Longrightarrow> is_digit c"
proof (induction n rule: showNat.induct)
  case (1 n)
  show ?case
  proof (cases "n < 10")
    case True
    with "1.prems" show ?thesis
      by (simp add: showNat.simps[of n] is_digit_digit_char)
  next
    case False
    with "1.prems" have "c \<in> set (showNat (n div 10)) \<or> c = digit_char (n mod 10)"
      by (auto simp: showNat.simps[of n])
    then show ?thesis
      using "1.IH"[OF False] by (auto simp: is_digit_digit_char)
  qed
qed

lemma showNat_inj: "showNat n = showNat m \<Longrightarrow> n = m"
proof (induction n arbitrary: m rule: showNat.induct)
  case (1 n)
  show ?case
  proof (cases "n < 10")
    case True
    show ?thesis
    proof (cases "m < 10")
      case m: True
      from "1.prems" True m have "digit_char n = digit_char m"
        by (simp add: showNat.simps[of n] showNat.simps[of m])
      with True m show ?thesis by (simp add: digit_char_inj)
    next
      case m: False
      from "1.prems" True m have "[digit_char n] = showNat (m div 10) @ [digit_char (m mod 10)]"
        by (simp add: showNat.simps[of n] showNat.simps[of m])
      then show ?thesis using showNat_ne[of "m div 10"] by simp
    qed
  next
    case False
    show ?thesis
    proof (cases "m < 10")
      case m: True
      from "1.prems" False m have "showNat (n div 10) @ [digit_char (n mod 10)] = [digit_char m]"
        by (simp add: showNat.simps[of n] showNat.simps[of m])
      then show ?thesis using showNat_ne[of "n div 10"] by simp
    next
      case m: False
      from "1.prems" False m
      have "showNat (n div 10) @ [digit_char (n mod 10)] = showNat (m div 10) @ [digit_char (m mod 10)]"
        by (simp add: showNat.simps[of n] showNat.simps[of m])
      then have a: "showNat (n div 10) = showNat (m div 10)"
        and b: "digit_char (n mod 10) = digit_char (m mod 10)" by simp_all
      from "1.IH"[OF False a] have "n div 10 = m div 10" .
      moreover from b have "n mod 10 = m mod 10" by (intro digit_char_inj) simp_all
      ultimately show ?thesis by (metis div_mult_mod_eq)
    qed
  qed
qed

lemma showNat_hd_digit: "\<exists>c cs. showNat n = c # cs \<and> is_digit c"
proof (cases "showNat n")
  case Nil then show ?thesis using showNat_ne by simp
next
  case (Cons c cs)
  then have "c \<in> set (showNat n)" by simp
  then show ?thesis using Cons showNat_digits by blast
qed

lemma showInt_inj: "showInt i = showInt j \<Longrightarrow> i = j"
proof -
  assume eq: "showInt i = showInt j"
  have minus: "\<not> is_digit CHR ''-''" by (simp add: is_digit_def)
  have neq: "CHR ''-'' # showNat a \<noteq> showNat b" for a b
    using showNat_hd_digit[of b] minus by auto
  show ?thesis
  proof (cases "i < 0"; cases "j < 0")
    assume "i < 0" "j < 0"
    with eq have "nat (- i) = nat (- j)" by (simp add: showInt_def showNat_inj)
    with \<open>i < 0\<close> \<open>j < 0\<close> show ?thesis by simp
  next
    assume "i < 0" "\<not> j < 0"
    with eq neq show ?thesis by (simp add: showInt_def)
  next
    assume "\<not> i < 0" "j < 0"
    with eq neq[of "nat (- j)" "nat i"] show ?thesis by (simp add: showInt_def)
  next
    assume "\<not> i < 0" "\<not> j < 0"
    with eq have "nat i = nat j" by (simp add: showInt_def showNat_inj)
    with \<open>\<not> i < 0\<close> \<open>\<not> j < 0\<close> show ?thesis by simp
  qed
qed

lemma digit_not_sep: "is_digit c \<Longrightarrow> \<not> is_sep c"
  by (auto simp: is_digit_def is_sep_def)

lemma showNat_no_sep: "c \<in> set (showNat n) \<Longrightarrow> \<not> is_sep c"
  using showNat_digits digit_not_sep by blast

lemma showInt_no_sep: "c \<in> set (showInt i) \<Longrightarrow> \<not> is_sep c"
  by (auto simp: showInt_def is_sep_def split: if_splits dest: showNat_no_sep)

lemma undefined_no_sep: "c \<in> set ''undefined'' \<Longrightarrow> \<not> is_sep c"
  by (auto simp: is_sep_def)

lemma showOptNat_no_sep: "c \<in> set (showOptNat v) \<Longrightarrow> \<not> is_sep c"
  by (cases v) (auto simp: showOptNat_def is_sep_def dest: showNat_no_sep)

lemma showOptInt_no_sep: "c \<in> set (showOptInt v) \<Longrightarrow> \<not> is_sep c"
  by (cases v) (auto simp: showOptInt_def is_sep_def dest: showInt_no_sep)

lemma undefined_not_showNat: "''undefined'' \<noteq> showNat n"
  using showNat_hd_digit[of n] by (auto simp: is_digit_def)

lemma undefined_not_showInt: "''undefined'' \<noteq> showInt i"
  using showNat_hd_digit[of "nat i"] by (auto simp: showInt_def is_digit_def)

lemma showOptNat_inj: "showOptNat v = showOptNat w \<Longrightarrow> v = w"
  using undefined_not_showNat undefined_not_showNat[symmetric]
  by (cases v; cases w) (auto simp: showOptNat_def dest: showNat_inj)

lemma showOptInt_inj: "showOptInt v = showOptInt w \<Longrightarrow> v = w"
  using undefined_not_showInt undefined_not_showInt[symmetric]
  by (cases v; cases w) (auto simp: showOptInt_def dest: showInt_inj)

lemma split_at_char:
  "c \<notin> set a \<Longrightarrow> c \<notin> set b \<Longrightarrow> a @ c # r = b @ c # s \<Longrightarrow> a = b \<and> r = s"
proof (induction a arbitrary: b)
  case Nil
  then show ?case by (cases b) auto
next
  case (Cons x a)
  then show ?case by (cases b) auto
qed


lemma stringifyLoop_concat: "stringifyLoop p s = s @ concat (map elemString p)"
  by (induction p arbitrary: s) (auto simp: elemString_def split: option.splits)

lemma stringifyMods_concat: "stringifyMods p = concat (map elemString p)"
  by (simp add: stringifyMods_def stringifyLoop_concat)

lemma modString_shape:
  "modString md @ r =
     CHR ''('' # showOptNat (fst (modTriple md)) @ CHR '','' #
       (showOptInt (fst (snd (modTriple md))) @ CHR '','' #
         (showNat (snd (snd (modTriple md))) @ CHR '')'' # r))"
  by (simp add: modString_def modTriple_def Let_def)

lemma modString_same: "modTriple a = modTriple b \<Longrightarrow> modString a = modString b"
  using modString_shape[of a "[]"] modString_shape[of b "[]"] by simp

lemma sep_chars: "is_sep CHR '',''" "is_sep CHR '')''" "is_sep CHR ''(''"
  by (simp_all add: is_sep_def)

lemma modString_parse:
  assumes "modString a @ r = modString b @ s"
  shows "modTriple a = modTriple b \<and> r = s"
proof -
  obtain t1 c1 h1 where A: "modTriple a = (t1, c1, h1)" by (cases "modTriple a")
  obtain t2 c2 h2 where B: "modTriple b = (t2, c2, h2)" by (cases "modTriple b")
  from assms have
    e1: "showOptNat t1 @ CHR '','' # (showOptInt c1 @ CHR '','' # (showNat h1 @ CHR '')'' # r)) =
         showOptNat t2 @ CHR '','' # (showOptInt c2 @ CHR '','' # (showNat h2 @ CHR '')'' # s))"
    by (simp add: modString_shape A B)
  have n1: "CHR '','' \<notin> set (showOptNat t)" for t
    using showOptNat_no_sep sep_chars by blast
  have n2: "CHR '','' \<notin> set (showOptInt c)" for c
    using showOptInt_no_sep sep_chars by blast
  have n3: "CHR '')'' \<notin> set (showNat h)" for h
    using showNat_no_sep sep_chars by blast
  from split_at_char[OF n1 n1 e1] have
    t: "showOptNat t1 = showOptNat t2" and
    e2: "showOptInt c1 @ CHR '','' # (showNat h1 @ CHR '')'' # r) =
         showOptInt c2 @ CHR '','' # (showNat h2 @ CHR '')'' # s)" by simp_all
  from split_at_char[OF n2 n2 e2] have
    c: "showOptInt c1 = showOptInt c2" and
    e3: "showNat h1 @ CHR '')'' # r = showNat h2 @ CHR '')'' # s" by simp_all
  from split_at_char[OF n3 n3 e3] have h: "showNat h1 = showNat h2" and rs: "r = s" by simp_all
  from t c h rs show ?thesis
    by (simp add: A B showOptNat_inj showOptInt_inj showNat_inj)
qed

lemma elemString_parse:
  assumes "elemString x @ r = elemString y @ s"
  shows "map_option modTriple x = map_option modTriple y \<and> r = s"
proof (cases x; cases y)
  assume "x = None" "y = None"
  with assms show ?thesis by (simp add: elemString_def)
next
  fix b assume "x = None" "y = Some b"
  with assms modString_shape[of b "CHR '','' # s"] show ?thesis by (simp add: elemString_def)
next
  fix a assume "x = Some a" "y = None"
  with assms modString_shape[of a "CHR '','' # r"] show ?thesis by (simp add: elemString_def)
next
  fix a b assume xy: "x = Some a" "y = Some b"
  with assms have "modString a @ (CHR '','' # r) = modString b @ (CHR '','' # s)"
    by (simp add: elemString_def)
  from modString_parse[OF this] xy show ?thesis by simp
qed

lemma elemString_ne: "elemString x \<noteq> []"
  by (simp add: elemString_def)

lemma concat_elemString_inj:
  "concat (map elemString p) = concat (map elemString q) \<Longrightarrow>
   map (map_option modTriple) p = map (map_option modTriple) q"
proof (induction p arbitrary: q)
  case Nil
  then show ?case by (cases q) (auto simp: elemString_ne)
next
  case (Cons x p)
  show ?case
  proof (cases q)
    case Nil
    with Cons.prems show ?thesis by (auto simp: elemString_ne)
  next
    case (Cons y q')
    with Cons.prems have
      "elemString x @ concat (map elemString p) = elemString y @ concat (map elemString q')"
      by simp
    from elemString_parse[OF this] have
      hd: "map_option modTriple x = map_option modTriple y" and
      tl: "concat (map elemString p) = concat (map elemString q')" by simp_all
    from Cons.IH[OF tl] hd \<open>q = y # q'\<close> show ?thesis by simp
  qed
qed

lemma elemString_same:
  "map_option modTriple x = map_option modTriple y \<Longrightarrow> elemString x = elemString y"
  by (cases x; cases y) (auto simp: elemString_def dest: modString_same)

lemma concat_elemString_same:
  "map (map_option modTriple) p = map (map_option modTriple) q \<Longrightarrow>
   concat (map elemString p) = concat (map elemString q)"
proof (induction p arbitrary: q)
  case Nil then show ?case by simp
next
  case (Cons x p)
  from Cons.prems obtain y q' where q: "q = y # q'"
    and hd: "map_option modTriple x = map_option modTriple y"
    and tl: "map (map_option modTriple) p = map (map_option modTriple) q'"
    by (cases q) auto
  from elemString_same[OF hd] Cons.IH[OF tl] q show ?case by simp
qed

lemma stringifyMods_eq_iff_triples:
  "stringifyMods p = stringifyMods q \<longleftrightarrow>
   map (map_option modTriple) p = map (map_option modTriple) q"
  unfolding stringifyMods_concat
  using concat_elemString_inj concat_elemString_same by blast

lemma samePosition_iff: "samePosition x y \<longleftrightarrow> map_option modTriple x = map_option modTriple y"
  by (cases x; cases y) (auto simp: samePosition_def)

text \<open>Keeping one arrangement per key.\<close>

lemma dedupLoop_subset: "set (dedupLoop key xs seen) \<subseteq> set xs"
  by (induction xs arbitrary: seen) auto

lemma dedupLoop_keys:
  "key ` set (dedupLoop key xs seen) = key ` set xs - set seen"
  by (induction xs arbitrary: seen) auto

lemma dedupLoop_distinct: "distinct (map key (dedupLoop key xs seen))"
proof (induction xs arbitrary: seen)
  case Nil
  show ?case by simp
next
  case (Cons x xs)
  have "key x \<notin> key ` set (dedupLoop key xs (key x # seen))"
    by (simp add: dedupLoop_keys)
  with Cons show ?case by simp
qed

lemma one_entry_per_key:
  "distinct (map f ys) \<Longrightarrow> y \<in> set ys \<Longrightarrow> length [q \<leftarrow> ys. f q = f y] = 1"
proof (induction ys)
  case Nil
  then show ?case by simp
next
  case (Cons a ys)
  show ?case
  proof (cases "f a = f y")
    case True
    from Cons.prems have "f a \<notin> f ` set ys" by simp
    with True have "\<forall>q \<in> set ys. f q \<noteq> f y" by (metis image_eqI)
    then have "[q \<leftarrow> ys. f q = f y] = []" by (simp add: filter_empty_conv)
    with True show ?thesis by simp
  next
    case False
    with Cons show ?thesis by auto
  qed
qed

lemma dedupByKey_one_entry:
  assumes "p \<in> set xs"
  shows "length [q \<leftarrow> dedupByKey key xs. key q = key p] = 1"
proof -
  from assms have "key p \<in> key ` set (dedupByKey key xs)"
    by (simp add: dedupByKey_def dedupLoop_keys)
  then obtain y where y: "y \<in> set (dedupByKey key xs)" "key y = key p" by auto
  have "distinct (map key (dedupByKey key xs))"
    by (simp add: dedupByKey_def dedupLoop_distinct)
  from one_entry_per_key[OF this y(1)] y(2) show ?thesis by simp
qed

text \<open>
  C8. Two arrangements get the same key exactly when they have the same length and, at
  every position, both hold \<open>null\<close> or both hold mods of equal triples of cost type,
  cost amount and category (this is for any length, five included). So exchanging two
  positions that hold mods of equal triples leaves the key as it is, and the two
  arrangements are collapsed to one entry: whatever list of arrangements is
  deduplicated by key, if the arrangement is in the list then the result holds exactly
  one entry that has the key of the two, and it never holds both of them when they
  differ.
\<close>

theorem stringifyMods_key_equal_iff:
  "(stringifyMods p = stringifyMods q \<longleftrightarrow>
      length p = length q \<and> (\<forall>i < length p. samePosition (p ! i) (q ! i))) \<and>
   (i < length p \<longrightarrow> j < length p \<longrightarrow> samePosition (p ! i) (p ! j) \<longrightarrow>
      stringifyMods (p[i := p ! j, j := p ! i]) = stringifyMods p) \<and>
   (i < length p \<longrightarrow> j < length p \<longrightarrow> samePosition (p ! i) (p ! j) \<longrightarrow>
    p \<in> set arrangements \<longrightarrow>
      length [r \<leftarrow> dedupByKey stringifyMods arrangements.
                stringifyMods r = stringifyMods p \<or>
                stringifyMods r = stringifyMods (p[i := p ! j, j := p ! i])] = 1 \<and>
      (p[i := p ! j, j := p ! i] \<noteq> p \<longrightarrow>
         \<not> (p \<in> set (dedupByKey stringifyMods arrangements) \<and>
            p[i := p ! j, j := p ! i] \<in> set (dedupByKey stringifyMods arrangements))))"
proof -
  have iff: "stringifyMods p = stringifyMods q \<longleftrightarrow>
      length p = length q \<and> (\<forall>i < length p. samePosition (p ! i) (q ! i))" for p q
    unfolding stringifyMods_eq_iff_triples samePosition_iff
    by (auto simp: list_eq_iff_nth_eq)
  have swap: "stringifyMods (p[i := p ! j, j := p ! i]) = stringifyMods p"
    if "i < length p" "j < length p" "samePosition (p ! i) (p ! j)"
  proof -
    have "samePosition ((p[i := p ! j, j := p ! i]) ! k) (p ! k)" if "k < length p" for k
      using that \<open>i < length p\<close> \<open>j < length p\<close> \<open>samePosition (p ! i) (p ! j)\<close>
      by (auto simp: nth_list_update samePosition_iff)
    then show ?thesis unfolding iff by simp
  qed
  have collapse:
    "length [r \<leftarrow> dedupByKey stringifyMods arrangements.
                stringifyMods r = stringifyMods p \<or>
                stringifyMods r = stringifyMods (p[i := p ! j, j := p ! i])] = 1 \<and>
      (p[i := p ! j, j := p ! i] \<noteq> p \<longrightarrow>
         \<not> (p \<in> set (dedupByKey stringifyMods arrangements) \<and>
            p[i := p ! j, j := p ! i] \<in> set (dedupByKey stringifyMods arrangements)))"
    if h: "i < length p" "j < length p" "samePosition (p ! i) (p ! j)" and m: "p \<in> set arrangements"
  proof -
    let ?p' = "p[i := p ! j, j := p ! i]"
    let ?out = "dedupByKey stringifyMods arrangements"
    have same: "stringifyMods ?p' = stringifyMods p" using h by (rule swap)
    have one: "length [r \<leftarrow> ?out. stringifyMods r = stringifyMods p] = 1"
      using m by (rule dedupByKey_one_entry)
    have d: "distinct (map stringifyMods ?out)"
      by (simp add: dedupByKey_def dedupLoop_distinct)
    have "?p' = p" if "p \<in> set ?out" "?p' \<in> set ?out"
      using d that same by (metis distinct_map inj_on_def)
    with one same show ?thesis by auto
  qed
  show ?thesis using iff swap collapse by blast
qed

text \<open>
  Two different mods of equal triples: exchanging them gives another arrangement with
  the same key. A mod of another cost, or no mod, gives another key. One line shows a
  key as text. Of five enumerated arrangements three are left, one for the two that
  differ by the exchange and one for the two with either mod in front.
\<close>

theorem stringifyMods_witness:
  "[Some arcCombatMod, None, Some arcCombatTwin, None, None] \<noteq>
     [Some arcCombatTwin, None, Some arcCombatMod, None, None] \<and>
   stringifyMods [Some arcCombatTwin, None, Some arcCombatMod, None, None] =
     stringifyMods [Some arcCombatMod, None, Some arcCombatTwin, None, None] \<and>
   stringifyMods (inFront arcCombatMod) = stringifyMods (inFront arcCombatTwin) \<and>
   stringifyMods (inFront arcCombatMod) \<noteq> stringifyMods (inFront arcRaidMod) \<and>
   stringifyMods (inFront arcCombatMod) \<noteq> stringifyMods allNull \<and>
   stringifyMods [None, Some costlessMod, Some negativeSlotMod] =
     '',(undefined,undefined,4),(1,-3,4),'' \<and>
   dedupByKey stringifyMods
     [allNull,
      [Some arcCombatMod, None, Some arcCombatTwin, None, None],
      [Some arcCombatTwin, None, Some arcCombatMod, None, None],
      inFront arcCombatMod, inFront arcCombatTwin] =
     [allNull, [Some arcCombatMod, None, Some arcCombatTwin, None, None], inFront arcCombatMod] \<and>
   length [r \<leftarrow> dedupByKey stringifyMods
                 [allNull,
                  [Some arcCombatMod, None, Some arcCombatTwin, None, None],
                  [Some arcCombatTwin, None, Some arcCombatMod, None, None],
                  inFront arcCombatMod, inFront arcCombatTwin].
             stringifyMods r = stringifyMods [Some arcCombatMod, None, Some arcCombatTwin, None, None] \<or>
             stringifyMods r = stringifyMods [Some arcCombatTwin, None, Some arcCombatMod, None, None]]
     = 1"
proof -
  have lit: "stringifyMods [None, Some costlessMod, Some negativeSlotMod] =
     '',(undefined,undefined,4),(1,-3,4),''"
    by code_simp
  have out: "dedupByKey stringifyMods
     [allNull,
      [Some arcCombatMod, None, Some arcCombatTwin, None, None],
      [Some arcCombatTwin, None, Some arcCombatMod, None, None],
      inFront arcCombatMod, inFront arcCombatTwin] =
     [allNull, [Some arcCombatMod, None, Some arcCombatTwin, None, None], inFront arcCombatMod]"
    by code_simp
  let ?p = "[Some arcCombatMod, None, Some arcCombatTwin, None, None]"
  let ?xs = "[allNull, ?p, [Some arcCombatTwin, None, Some arcCombatMod, None, None],
      inFront arcCombatMod, inFront arcCombatTwin]"
  have t: "modTriple arcCombatMod = modTriple arcCombatTwin"
    by (simp add: modTriple_def arcCombatMod_def arcCombatTwin_def)
  let ?p' = "[Some arcCombatTwin, None, Some arcCombatMod, None, None]"
  have sw: "?p[0 := ?p ! 2, 2 := ?p ! 0] = ?p'" by simp
  have h: "0 < length ?p" "2 < length ?p" "samePosition (?p ! 0) (?p ! 2)" "?p \<in> set ?xs"
    using t by (simp_all add: samePosition_def)
  from stringifyMods_key_equal_iff[where p = ?p and i = 0 and j = 2 and arrangements = ?xs] h
  have "stringifyMods (?p[0 := ?p ! 2, 2 := ?p ! 0]) = stringifyMods ?p"
    and "length [r \<leftarrow> dedupByKey stringifyMods ?xs.
             stringifyMods r = stringifyMods ?p \<or>
             stringifyMods r = stringifyMods (?p[0 := ?p ! 2, 2 := ?p ! 0])] = 1"
    by blast+
  then have swap': "stringifyMods ?p' = stringifyMods ?p"
    and one': "length [r \<leftarrow> dedupByKey stringifyMods ?xs.
             stringifyMods r = stringifyMods ?p \<or> stringifyMods r = stringifyMods ?p'] = 1"
    unfolding sw by blast+
  have same: "\<forall>i < length (inFront arcCombatMod).
      samePosition (inFront arcCombatMod ! i) (inFront arcCombatTwin ! i)"
    using t by (auto simp: inFront_def samePosition_def nth_Cons' )
  have eq: "stringifyMods (inFront arcCombatMod) = stringifyMods (inFront arcCombatTwin)"
    using stringifyMods_key_equal_iff
            [where p = "inFront arcCombatMod" and q = "inFront arcCombatTwin"] same
    by (simp add: inFront_def)
  have "\<not> samePosition (inFront arcCombatMod ! 0) (inFront arcRaidMod ! 0)"
    by (simp add: inFront_def samePosition_def modTriple_def arcCombatMod_def arcRaidMod_def)
  moreover have "0 < length (inFront arcCombatMod)" by (simp add: inFront_def)
  ultimately have ne1: "stringifyMods (inFront arcCombatMod) \<noteq> stringifyMods (inFront arcRaidMod)"
    using stringifyMods_key_equal_iff
            [where p = "inFront arcCombatMod" and q = "inFront arcRaidMod"]
    by blast
  have "\<not> samePosition (inFront arcCombatMod ! 0) (allNull ! 0)"
    by (simp add: inFront_def allNull_def samePosition_def)
  with \<open>0 < length (inFront arcCombatMod)\<close>
  have ne2: "stringifyMods (inFront arcCombatMod) \<noteq> stringifyMods allNull"
    using stringifyMods_key_equal_iff[where p = "inFront arcCombatMod" and q = allNull]
    by blast
  have neq: "[Some arcCombatMod, None, Some arcCombatTwin, None, None] \<noteq>
     [Some arcCombatTwin, None, Some arcCombatMod, None, None]"
    by (simp add: arcCombatMod_def arcCombatTwin_def)
  from neq swap' eq ne1 ne2 lit out one' show ?thesis by blast
qed


section \<open>Partitioning: lemmas\<close>

lemma Map_push_get:
  "Map_get (Map_push k x m) k' =
     (if k' = k then map_option (\<lambda>l. l @ [x]) (Map_get m k) else Map_get m k')"
  by (induction m) (auto simp: Map_get_def)

lemma Map_push_keys: "map fst (Map_push k x m) = map fst m"
  by (induction m) auto

lemma Map_set_get: "Map_get (Map_set k v m) k' = (if k' = k then Some v else Map_get m k')"
  by (induction m) (auto simp: Map_get_def)

lemma Map_set_keys_set: "fst ` set (Map_set k v m) = insert k (fst ` set m)"
proof (induction m)
  case Nil
  show ?case by simp
next
  case (Cons p m)
  obtain k' v' where p: "p = (k', v')" by (cases p)
  show ?case unfolding p using Cons.IH by (cases "k' = k") auto
qed

lemma Map_set_keys_distinct: "distinct (map fst m) \<Longrightarrow> distinct (map fst (Map_set k v m))"
proof (induction m)
  case Nil
  show ?case by simp
next
  case (Cons p m)
  obtain k' v' where p: "p = (k', v')" by (cases p)
  from Cons show ?case unfolding p by (cases "k' = k") (auto simp: Map_set_keys_set)
qed

lemma initAssignments_get:
  "Map_get (initAssignments items a) k =
     (if k \<in> item_id ` set items then Some [] else Map_get a k)"
  by (induction items arbitrary: a) (auto simp: Map_set_get)

lemma initAssignments_keys_set:
  "fst ` set (initAssignments items a) = fst ` set a \<union> item_id ` set items"
  by (induction items arbitrary: a) (auto simp: Map_set_keys_set)

lemma initAssignments_keys_distinct:
  "distinct (map fst a) \<Longrightarrow> distinct (map fst (initAssignments items a))"
  by (induction items arbitrary: a) (auto simp: Map_set_keys_distinct)

lemma partitionStep_frame:
  "itemEnergies (partitionStep ext items md st) = itemEnergies st \<and>
   events (partitionStep ext items md st) = events st \<and>
   map fst (assignments (partitionStep ext items md st)) = map fst (assignments st)"
  by (simp add: partitionStep_def Map_push_keys split: option.splits)

lemma partitionMods_frame:
  "itemEnergies (partitionMods ext items mods st) = itemEnergies st \<and>
   events (partitionMods ext items mods st) = events st \<and>
   map fst (assignments (partitionMods ext items mods st)) = map fst (assignments st)"
  by (induction mods arbitrary: st) (simp_all add: partitionStep_frame)

lemma partitionMods_generalMods:
  "generalMods (partitionMods ext items mods st) =
     generalMods st @
     [md \<leftarrow> mods. plug_plugCategoryHash md = armor2PlugCategoryHashesByName_general ext]"
  by (induction mods arbitrary: st) (simp_all add: partitionStep_def split: option.splits)

lemma partitionMods_combatMods:
  "combatMods (partitionMods ext items mods st) =
     combatMods st @
     [md \<leftarrow> mods. plug_plugCategoryHash md \<noteq> armor2PlugCategoryHashesByName_general ext \<and>
        plug_plugCategoryHash md \<in> set (combatCompatiblePlugCategoryHashes ext)]"
  by (induction mods arbitrary: st) (simp_all add: partitionStep_def split: option.splits)

lemma partitionMods_raidMods:
  "raidMods (partitionMods ext items mods st) =
     raidMods st @
     [md \<leftarrow> mods. plug_plugCategoryHash md \<noteq> armor2PlugCategoryHashesByName_general ext \<and>
        plug_plugCategoryHash md \<notin> set (combatCompatiblePlugCategoryHashes ext) \<and>
        plug_plugCategoryHash md \<in> set (raidModPlugCategoryHashes ext)]"
  by (induction mods arbitrary: st) (simp_all add: partitionStep_def split: option.splits)

lemma partitionMods_assignments:
  "Map_get (assignments (partitionMods ext items mods st)) k =
     map_option (\<lambda>l. l @
       [md \<leftarrow> mods. plug_plugCategoryHash md \<noteq> armor2PlugCategoryHashesByName_general ext \<and>
          plug_plugCategoryHash md \<notin> set (combatCompatiblePlugCategoryHashes ext) \<and>
          plug_plugCategoryHash md \<notin> set (raidModPlugCategoryHashes ext) \<and>
          map_option item_id (itemForMod ext items md) = Some k])
       (Map_get (assignments st) k)"
proof (induction mods arbitrary: st)
  case Nil
  show ?case by (simp add: option.map_ident)
next
  case (Cons md mods)
  show ?case
    unfolding partitionMods.simps Cons.IH
    by (cases "Map_get (assignments st) k")
       (auto simp: partitionStep_def Map_push_get split: option.splits)
qed

section \<open>The search: lemmas\<close>

lemma log_event_fields [simp]:
  "assignments (log_event e st) = assignments st"
  "itemEnergies (log_event e st) = itemEnergies st"
  "generalMods (log_event e st) = generalMods st"
  "combatMods (log_event e st) = combatMods st"
  "raidMods (log_event e st) = raidMods st"
  "events (log_event e st) = events st @ [e]"
  by (simp_all add: log_event_def)

lemma itemLoop_iff: "itemLoop step indices \<longleftrightarrow> (\<forall>i \<in> set indices. step i)"
  by (induction indices) simp_all

lemma itemLoopNaive_eq: "itemLoopNaive step indices = itemLoop step indices"
  by (simp add: itemLoopNaive_def itemLoop_iff list_all_iff)

lemma raidModLoop_frame:
  "assignments (raidModLoop ext items combatP generalP rps st) = assignments st \<and>
   itemEnergies (raidModLoop ext items combatP generalP rps st) = itemEnergies st"
  by (induction rps arbitrary: st) (simp_all add: Let_def)

lemma generalModLoop_frame:
  "assignments (generalModLoop ext items rps combatP gps st) = assignments st \<and>
   itemEnergies (generalModLoop ext items rps combatP gps st) = itemEnergies st"
  by (induction gps arbitrary: st) (simp_all add: Let_def raidModLoop_frame)

lemma combatModLoop_frame:
  "assignments (combatModLoop ext items gps rps cps st) = assignments st \<and>
   itemEnergies (combatModLoop ext items gps rps cps st) = itemEnergies st"
  by (induction cps arbitrary: st) (simp_all add: Let_def generalModLoop_frame)

lemma raidModLoop_events:
  "e \<in> set (events (raidModLoop ext items combatP generalP rps st)) \<longleftrightarrow>
     e \<in> set (events st) \<or>
     (\<exists>raidP \<in> set rps. e = ExamineRaid combatP generalP raidP \<or>
        (e = Candidate combatP generalP raidP \<and>
         raidItemLoop ext items (itemEnergies st) combatP generalP raidP))"
proof (induction rps arbitrary: st)
  case Nil
  show ?case by simp
next
  case (Cons raidP rps)
  show ?case
    unfolding raidModLoop.simps Cons.IH Let_def
    by (cases "raidItemLoop ext items (itemEnergies st) combatP generalP raidP") auto
qed

lemma generalModLoop_events:
  "e \<in> set (events (generalModLoop ext items rps combatP gps st)) \<longleftrightarrow>
     e \<in> set (events st) \<or>
     (\<exists>generalP \<in> set gps. e = ExamineGeneral combatP generalP \<or>
        (generalItemLoop items (itemEnergies st) combatP generalP \<and>
         (\<exists>raidP \<in> set rps. e = ExamineRaid combatP generalP raidP \<or>
            (e = Candidate combatP generalP raidP \<and>
             raidItemLoop ext items (itemEnergies st) combatP generalP raidP))))"
proof (induction gps arbitrary: st)
  case Nil
  show ?case by simp
next
  case (Cons generalP gps)
  show ?case
    unfolding generalModLoop.simps Cons.IH Let_def
    by (cases "generalItemLoop items (itemEnergies st) combatP generalP")
       (auto simp: raidModLoop_events raidModLoop_frame)
qed

lemma combatModLoop_events:
  "e \<in> set (events (combatModLoop ext items gps rps cps st)) \<longleftrightarrow>
     e \<in> set (events st) \<or>
     (\<exists>combatP \<in> set cps. e = ExamineCombat combatP \<or>
        (combatItemLoop ext items (itemEnergies st) combatP \<and>
         (\<exists>generalP \<in> set gps. e = ExamineGeneral combatP generalP \<or>
            (generalItemLoop items (itemEnergies st) combatP generalP \<and>
             (\<exists>raidP \<in> set rps. e = ExamineRaid combatP generalP raidP \<or>
                (e = Candidate combatP generalP raidP \<and>
                 raidItemLoop ext items (itemEnergies st) combatP generalP raidP))))))"
proof (induction cps arbitrary: st)
  case Nil
  show ?case by simp
next
  case (Cons combatP cps)
  show ?case
    unfolding combatModLoop.simps Cons.IH Let_def
    by (cases "combatItemLoop ext items (itemEnergies st) combatP")
       (auto simp: generalModLoop_events generalModLoop_frame)
qed

lemma raidModLoopNaive_eq:
  "raidModLoopNaive ext items combatP generalP rps st = raidModLoop ext items combatP generalP rps st"
  by (induction rps arbitrary: st) (simp_all add: Let_def itemLoopNaive_eq raidItemLoop_def)

lemma generalModLoopNaive_eq:
  "generalModLoopNaive ext items rps combatP gps st = generalModLoop ext items rps combatP gps st"
  by (induction gps arbitrary: st)
     (simp_all add: Let_def itemLoopNaive_eq generalItemLoop_def raidModLoopNaive_eq)

lemma combatModLoopNaive_eq:
  "combatModLoopNaive ext items gps rps cps st = combatModLoop ext items gps rps cps st"
  by (induction cps arbitrary: st)
     (simp_all add: Let_def itemLoopNaive_eq combatItemLoop_def generalModLoopNaive_eq)

lemma events_beforeSearch: "events (beforeSearch ext items mods defs tier) = []"
  by (simp add: beforeSearch_def Let_def partitionMods_frame initialLocals_def)

lemma accepted_afterSearch:
  "(combatP, generalP, raidP) \<in> accepted (afterSearch ext items mods defs tier) \<longleftrightarrow>
     combatP \<in> set (generatePermutationsOfFive ext
        (combatMods (beforeSearch ext items mods defs tier)) stringifyMods) \<and>
     generalP \<in> set (generatePermutationsOfFive ext
        (generalMods (beforeSearch ext items mods defs tier)) stringifyMods) \<and>
     raidP \<in> set (generatePermutationsOfFive ext
        (raidMods (beforeSearch ext items mods defs tier)) stringifyMods) \<and>
     combatItemLoop ext items (itemEnergies (beforeSearch ext items mods defs tier)) combatP \<and>
     generalItemLoop items (itemEnergies (beforeSearch ext items mods defs tier))
       combatP generalP \<and>
     raidItemLoop ext items (itemEnergies (beforeSearch ext items mods defs tier))
       combatP generalP raidP"
  unfolding accepted_def afterSearch_def Let_def
  by (auto simp: combatModLoop_events events_beforeSearch)

lemma compatible_with_Any [simp]:
  "energyTypesCompatible a DestinyEnergyType_Any"
  "energyTypesCompatible DestinyEnergyType_Any a"
  by (simp_all add: energyTypesCompatible_def)

lemma of_null [simp]:
  "energyCostOf None = 0" "energyTypeOf None = DestinyEnergyType_Any"
  by (simp_all add: energyCostOf_def energyTypeOf_def)

lemma slot_compatible_iff:
  "(t = m \<or> m = DestinyEnergyType_Any \<or> t = DestinyEnergyType_Any) \<longleftrightarrow>
   energyTypesCompatible t m"
  by (auto simp: energyTypesCompatible_def)

lemma steps_give_constraints:
  assumes c: "combatItemStep ext items E combatP i"
      and g: "generalItemStep items E combatP generalP i"
      and r: "raidItemStep ext items E combatP generalP raidP i"
  shows "(modAt combatP i \<noteq> None \<or> modAt generalP i \<noteq> None \<or> modAt raidP i \<noteq> None \<longrightarrow>
       (\<exists>e. E (item_id (items ! i)) = Some e \<and>
            used e + energyCostOf (modAt combatP i) + energyCostOf (modAt generalP i) +
              energyCostOf (modAt raidP i) \<le> capacity e \<and>
            energyTypesCompatible (etype e) (energyTypeOf (modAt combatP i)) \<and>
            energyTypesCompatible (etype e) (energyTypeOf (modAt generalP i)) \<and>
            energyTypesCompatible (etype e) (energyTypeOf (modAt raidP i)))) \<and>
    energyTypesCompatible (energyTypeOf (modAt generalP i)) (energyTypeOf (modAt combatP i)) \<and>
    energyTypesCompatible (energyTypeOf (modAt raidP i)) (energyTypeOf (modAt generalP i)) \<and>
    energyTypesCompatible (energyTypeOf (modAt raidP i)) (energyTypeOf (modAt combatP i)) \<and>
    (\<forall>md. modAt combatP i = Some md \<longrightarrow>
       socketAccepts (itemSocketMetadata ext items) (item_id (items ! i))
         (getModTypeTagByPlugCategoryHash ext (plug_plugCategoryHash md))) \<and>
    (\<forall>md. modAt raidP i = Some md \<longrightarrow>
       socketAccepts (itemSocketMetadata ext items) (item_id (items ! i))
         (getModTypeTagByPlugCategoryHash ext (plug_plugCategoryHash md)))"
proof (cases "modAt combatP i"; cases "modAt generalP i"; cases "modAt raidP i")
qed (use c g r in \<open>auto simp: combatItemStep_def generalItemStep_def raidItemStep_def Let_def
       slot_compatible_iff split: option.splits\<close>)

text \<open>The definitions that \<open>simp\<close> unfolds to run the solver on a concrete input.\<close>

lemmas example_defs =
  exampleExternals_def arcItem_def noEnergyItem_def anyEnergyItem_def thermalItem_def
  secondArcItem_def fiveItems_def noEnergyTwin_def
  costlessMod_def anyCostMod_def arcCombatMod_def arcRaidMod_def arcSlotMod_def
  arcCombatTwin_def strayMod_def negativeSlotMod_def allNull_def inFront_def

lemmas solver_defs =
  beforeSearch_def initialLocals_def partitionStep_def itemForMod_def
  buildItemEnergies_def energyOfItem_def mapValues_def keyBy_def sumBy_def Map_get_def
  itemSocketMetadata_def socketAccepts_def modAt_def energyCostOf_def energyTypeOf_def
  combatItemLoop_def generalItemLoop_def raidItemLoop_def
  combatItemStep_def generalItemStep_def raidItemStep_def
  energyTypesCompatible_def DestinyEnergyType_Any_def Let_def

section \<open>The search: results\<close>

text \<open>
  C1 as stated fails at an index where none of the three arrangements places a mod: no
  check is made there, so a slot whose committed slot-specific mods alone exceed its
  capacity does not keep a triple from being accepted. Here each of the five items has
  capacity 3, the first holds a committed mod of cost 5, and the triple of empty
  arrangements is accepted.
\<close>

theorem over_committed_slot_accepted:
  "(allNull, allNull, allNull) \<in> accepted (afterSearch exampleExternals fiveItems [arcSlotMod] () 3) \<and>
   itemEnergies (beforeSearch exampleExternals fiveItems [arcSlotMod] () 3) (item_id (fiveItems ! 0)) =
     Some \<lparr>used = 5, capacity = 3, etype = 1\<rparr> \<and>
   \<not> (5 + energyCostOf (modAt allNull 0) + energyCostOf (modAt allNull 0) +
        energyCostOf (modAt allNull 0) \<le> (3::int))"
  by (simp add: accepted_afterSearch solver_defs example_defs)

text \<open>
  C1, amended. Every triple of arrangements that reaches the candidate point satisfies,
  at every slot index \<open>i\<close>: if at least one of the three mods at \<open>i\<close> is present, the slot
  has an energy state \<open>e\<close> with \<open>used e\<close> plus the three costs at most \<open>capacity e\<close>, and
  the slot's type is compatible with the type of each of the three mods; the types of
  the three mods are compatible pair by pair; and a present combat mod and a present
  raid mod carry a tag that a socket of the slot accepts. An absent mod counts with
  cost 0 and type \<open>Any\<close>.
\<close>

theorem accepted_triple_satisfies_constraints:
  assumes acc: "(combatP, generalP, raidP) \<in> accepted (afterSearch ext items mods defs tier)"
      and i: "i < length items"
  shows "(modAt combatP i \<noteq> None \<or> modAt generalP i \<noteq> None \<or> modAt raidP i \<noteq> None \<longrightarrow>
       (\<exists>e. itemEnergies (beforeSearch ext items mods defs tier) (item_id (items ! i)) = Some e \<and>
            used e + energyCostOf (modAt combatP i) + energyCostOf (modAt generalP i) +
              energyCostOf (modAt raidP i) \<le> capacity e \<and>
            energyTypesCompatible (etype e) (energyTypeOf (modAt combatP i)) \<and>
            energyTypesCompatible (etype e) (energyTypeOf (modAt generalP i)) \<and>
            energyTypesCompatible (etype e) (energyTypeOf (modAt raidP i)))) \<and>
    energyTypesCompatible (energyTypeOf (modAt generalP i)) (energyTypeOf (modAt combatP i)) \<and>
    energyTypesCompatible (energyTypeOf (modAt raidP i)) (energyTypeOf (modAt generalP i)) \<and>
    energyTypesCompatible (energyTypeOf (modAt raidP i)) (energyTypeOf (modAt combatP i)) \<and>
    (\<forall>md. modAt combatP i = Some md \<longrightarrow>
       socketAccepts (itemSocketMetadata ext items) (item_id (items ! i))
         (getModTypeTagByPlugCategoryHash ext (plug_plugCategoryHash md))) \<and>
    (\<forall>md. modAt raidP i = Some md \<longrightarrow>
       socketAccepts (itemSocketMetadata ext items) (item_id (items ! i))
         (getModTypeTagByPlugCategoryHash ext (plug_plugCategoryHash md)))"
proof -
  let ?E = "itemEnergies (beforeSearch ext items mods defs tier)"
  from acc have
    "combatItemLoop ext items ?E combatP"
    "generalItemLoop items ?E combatP generalP"
    "raidItemLoop ext items ?E combatP generalP raidP"
    by (simp_all add: accepted_afterSearch)
  with i have
    "combatItemStep ext items ?E combatP i"
    "generalItemStep items ?E combatP generalP i"
    "raidItemStep ext items ?E combatP generalP raidP i"
    by (simp_all add: combatItemLoop_def generalItemLoop_def raidItemLoop_def itemLoop_iff)
  then show ?thesis by (rule steps_give_constraints)
qed

text \<open>
  An accepted triple with a mod of each category in the first slot: costs 5, 4 and 1
  against capacity 10.
\<close>

theorem accepted_triple_witness:
  "(inFront arcCombatMod, inFront anyCostMod, inFront arcRaidMod) \<in>
     accepted (afterSearch exampleExternals fiveItems [arcCombatMod, anyCostMod, arcRaidMod] () 10) \<and>
   (0::nat) < length fiveItems \<and>
   modAt (inFront arcCombatMod) 0 = Some arcCombatMod \<and>
   itemEnergies (beforeSearch exampleExternals fiveItems [arcCombatMod, anyCostMod, arcRaidMod] () 10)
     (item_id (fiveItems ! 0)) = Some \<lparr>used = 0, capacity = 10, etype = 1\<rparr> \<and>
   energyCostOf (modAt (inFront arcCombatMod) 0) + energyCostOf (modAt (inFront anyCostMod) 0) +
     energyCostOf (modAt (inFront arcRaidMod) 0) = 10 \<and>
   energyTypesCompatible 1 (energyTypeOf (modAt (inFront arcCombatMod) 0)) \<and>
   energyTypesCompatible (energyTypeOf (modAt (inFront arcRaidMod) 0))
     (energyTypeOf (modAt (inFront arcCombatMod) 0)) \<and>
   socketAccepts (itemSocketMetadata exampleExternals fiveItems) (item_id (fiveItems ! 0))
     (getModTypeTagByPlugCategoryHash exampleExternals (plug_plugCategoryHash arcRaidMod))"
  using accepted_triple_satisfies_constraints
          [of "inFront arcCombatMod" "inFront anyCostMod" "inFront arcRaidMod" exampleExternals
              "fiveItems" "[arcCombatMod, anyCostMod, arcRaidMod]" "()" 10 0]
  by (simp add: accepted_afterSearch solver_defs example_defs)

text \<open>What the search has examined, and the search without early exit.\<close>

lemma examined_afterSearch:
  "ExamineCombat combatP \<in> set (events (afterSearch ext items mods defs tier)) \<longleftrightarrow>
     combatP \<in> set (generatePermutationsOfFive ext
        (combatMods (beforeSearch ext items mods defs tier)) stringifyMods)"
  "ExamineGeneral combatP generalP \<in> set (events (afterSearch ext items mods defs tier)) \<longleftrightarrow>
     combatP \<in> set (generatePermutationsOfFive ext
        (combatMods (beforeSearch ext items mods defs tier)) stringifyMods) \<and>
     combatItemLoop ext items (itemEnergies (beforeSearch ext items mods defs tier)) combatP \<and>
     generalP \<in> set (generatePermutationsOfFive ext
        (generalMods (beforeSearch ext items mods defs tier)) stringifyMods)"
  "ExamineRaid combatP generalP raidP \<in> set (events (afterSearch ext items mods defs tier)) \<longleftrightarrow>
     combatP \<in> set (generatePermutationsOfFive ext
        (combatMods (beforeSearch ext items mods defs tier)) stringifyMods) \<and>
     combatItemLoop ext items (itemEnergies (beforeSearch ext items mods defs tier)) combatP \<and>
     generalP \<in> set (generatePermutationsOfFive ext
        (generalMods (beforeSearch ext items mods defs tier)) stringifyMods) \<and>
     generalItemLoop items (itemEnergies (beforeSearch ext items mods defs tier))
       combatP generalP \<and>
     raidP \<in> set (generatePermutationsOfFive ext
        (raidMods (beforeSearch ext items mods defs tier)) stringifyMods)"
  unfolding afterSearch_def Let_def
  by (auto simp: combatModLoop_events events_beforeSearch)

lemma afterSearchNaive_eq:
  "afterSearchNaive ext items mods defs tier = afterSearch ext items mods defs tier"
  by (simp add: afterSearchNaive_def afterSearch_def combatModLoopNaive_eq)

text \<open>
  C3. The search with early exit accepts exactly the triples that the search without
  early exit accepts. A combat arrangement that fails its check at some slot index is
  never paired with a general or a raid arrangement, and a general arrangement that
  fails at some index (against the combat arrangement it is paired with) is never
  paired with a raid arrangement.
\<close>

theorem early_exit_prunes_and_accepts_the_same:
  "accepted (afterSearch ext items mods defs tier) =
     accepted (afterSearchNaive ext items mods defs tier) \<and>
   ((\<exists>i < length items.
        \<not> combatItemStep ext items (itemEnergies (beforeSearch ext items mods defs tier))
            combatP i) \<longrightarrow>
      ExamineGeneral combatP generalP \<notin> set (events (afterSearch ext items mods defs tier)) \<and>
      ExamineRaid combatP generalP raidP \<notin> set (events (afterSearch ext items mods defs tier))) \<and>
   ((\<exists>i < length items.
        \<not> generalItemStep items (itemEnergies (beforeSearch ext items mods defs tier))
            combatP generalP i) \<longrightarrow>
      ExamineRaid combatP generalP raidP \<notin> set (events (afterSearch ext items mods defs tier)))"
  by (auto simp: afterSearchNaive_eq examined_afterSearch combatItemLoop_def generalItemLoop_def
        itemLoop_iff)

text \<open>
  With capacity 3 the combat mod of cost 5 fails in the first slot: its arrangement is
  taken up and then left. The general mod of cost 4 fails against the empty combat
  arrangement: the pair is taken up and no raid arrangement is tried for it.
\<close>

theorem early_exit_witness:
  "\<not> combatItemStep exampleExternals fiveItems
       (itemEnergies (beforeSearch exampleExternals fiveItems
          [arcCombatMod, anyCostMod, arcRaidMod] () 3)) (inFront arcCombatMod) 0 \<and>
   ExamineCombat (inFront arcCombatMod) \<in> set (events (afterSearch exampleExternals fiveItems
       [arcCombatMod, anyCostMod, arcRaidMod] () 3)) \<and>
   ExamineGeneral (inFront arcCombatMod) (inFront anyCostMod) \<notin>
     set (events (afterSearch exampleExternals fiveItems
       [arcCombatMod, anyCostMod, arcRaidMod] () 3)) \<and>
   ExamineRaid (inFront arcCombatMod) (inFront anyCostMod) (inFront arcRaidMod) \<notin>
     set (events (afterSearch exampleExternals fiveItems
       [arcCombatMod, anyCostMod, arcRaidMod] () 3)) \<and>
   \<not> generalItemStep fiveItems
       (itemEnergies (beforeSearch exampleExternals fiveItems
          [arcCombatMod, anyCostMod, arcRaidMod] () 3)) allNull (inFront anyCostMod) 0 \<and>
   ExamineGeneral allNull (inFront anyCostMod) \<in>
     set (events (afterSearch exampleExternals fiveItems
       [arcCombatMod, anyCostMod, arcRaidMod] () 3)) \<and>
   ExamineRaid allNull (inFront anyCostMod) (inFront arcRaidMod) \<notin>
     set (events (afterSearch exampleExternals fiveItems
       [arcCombatMod, anyCostMod, arcRaidMod] () 3)) \<and>
   accepted (afterSearch exampleExternals fiveItems [arcCombatMod, anyCostMod, arcRaidMod] () 3) =
     accepted (afterSearchNaive exampleExternals fiveItems
       [arcCombatMod, anyCostMod, arcRaidMod] () 3)"
proof -
  let ?E = "itemEnergies (beforeSearch exampleExternals fiveItems
          [arcCombatMod, anyCostMod, arcRaidMod] () 3)"
  have c: "\<not> combatItemStep exampleExternals fiveItems ?E (inFront arcCombatMod) 0"
    by (simp add: solver_defs example_defs)
  have g: "\<not> generalItemStep fiveItems ?E allNull (inFront anyCostMod) 0"
    by (simp add: solver_defs example_defs)
  have ec: "ExamineCombat (inFront arcCombatMod) \<in> set (events (afterSearch exampleExternals
       fiveItems [arcCombatMod, anyCostMod, arcRaidMod] () 3))"
    by (simp add: examined_afterSearch solver_defs example_defs)
  have eg: "ExamineGeneral allNull (inFront anyCostMod) \<in> set (events (afterSearch
       exampleExternals fiveItems [arcCombatMod, anyCostMod, arcRaidMod] () 3))"
    by (simp add: examined_afterSearch solver_defs example_defs)
  have len: "0 < length fiveItems" by (simp add: fiveItems_def)
  from c len have c': "\<exists>i < length fiveItems. \<not> combatItemStep exampleExternals fiveItems ?E
       (inFront arcCombatMod) i" by blast
  from g len have g': "\<exists>i < length fiveItems. \<not> generalItemStep fiveItems ?E
       allNull (inFront anyCostMod) i" by blast
  show ?thesis
    using early_exit_prunes_and_accepts_the_same
            [of exampleExternals "fiveItems" "[arcCombatMod, anyCostMod, arcRaidMod]" "()" 3
                "inFront arcCombatMod" "inFront anyCostMod" "inFront arcRaidMod"]
          early_exit_prunes_and_accepts_the_same
            [of exampleExternals "fiveItems" "[arcCombatMod, anyCostMod, arcRaidMod]" "()" 3
                allNull "inFront anyCostMod" "inFront arcRaidMod"]
          c g ec eg c' g'
    by blast
qed

section \<open>Partitioning and the returned mapping: results\<close>

lemma keyBy_fold_other:
  "k \<notin> item_id ` set items \<Longrightarrow>
   fold (\<lambda>item m. m(item_id item \<mapsto> item)) items m k = m k"
  by (induction items arbitrary: m) auto

lemma keyBy_fold_distinct:
  "distinct (map item_id items) \<Longrightarrow> item \<in> set items \<Longrightarrow>
   fold (\<lambda>item m. m(item_id item \<mapsto> item)) items m (item_id item) = Some item"
proof (induction items arbitrary: m)
  case Nil
  then show ?case by simp
next
  case (Cons x items)
  show ?case
  proof (cases "item = x")
    case True
    with Cons.prems have "item_id x \<notin> item_id ` set items" by auto
    from keyBy_fold_other[OF this, of "m(item_id x \<mapsto> x)"] True show ?thesis
      by (simp del: fun_upd_apply add: fun_upd_same)
  next
    case False
    with Cons show ?thesis by auto
  qed
qed

lemma keyBy_distinct:
  "distinct (map item_id items) \<Longrightarrow> item \<in> set items \<Longrightarrow>
   keyBy items (item_id item) = Some item"
  unfolding keyBy_def by (rule keyBy_fold_distinct)

lemma energyCostOf_Some:
  "energyCostOf (Some md) = (case plug_energyCost md of None \<Rightarrow> 0 | Some c \<Rightarrow> energyCost c)"
  by (simp add: energyCostOf_def split: option.splits)

lemma assignments_beforeSearch:
  "Map_get (assignments (beforeSearch ext items mods defs tier)) k =
     (if k \<in> item_id ` set items
      then Some [md \<leftarrow> mods.
             plug_plugCategoryHash md \<noteq> armor2PlugCategoryHashesByName_general ext \<and>
             plug_plugCategoryHash md \<notin> set (combatCompatiblePlugCategoryHashes ext) \<and>
             plug_plugCategoryHash md \<notin> set (raidModPlugCategoryHashes ext) \<and>
             map_option item_id (itemForMod ext items md) = Some k]
      else None)"
proof -
  have "Map_get [] k = (None :: PluggableInventoryItemDefinition list option)"
    by (simp add: Map_get_def)
  then show ?thesis
    by (simp add: beforeSearch_def Let_def partitionMods_assignments initialLocals_def
          initAssignments_get)
qed

lemma assignments_afterSearch:
  "assignments (afterSearch ext items mods defs tier) =
     assignments (partitionMods ext items mods (initialLocals items))"
  by (simp add: afterSearch_def Let_def combatModLoop_frame beforeSearch_def)
lemma itemEnergies_beforeSearch:
  "itemEnergies (beforeSearch ext items mods defs tier) k =
     map_option (energyOfItem ext defs tier (assignments (beforeSearch ext items mods defs tier)))
       (keyBy items k)"
  by (simp add: beforeSearch_def Let_def buildItemEnergies_def mapValues_def)

text \<open>
  C7. The partitioner sends each mod to the general bucket when its category is the
  general one, else to the combat bucket when its category is in the combat table, else
  to the raid bucket when it is in the raid table, and else appends it to the list of
  the first item whose bucket maps to the mod's category. The buckets and the lists keep
  the order of \<open>mods\<close>. A mod that no table and no item's bucket matches is in no bucket
  and in no list. The partitioner has no failing branch: \<open>beforeSearch\<close> is a total
  function into the locals.
\<close>

theorem partition_classifies_mods_in_order:
  "generalMods (beforeSearch ext items mods defs tier) =
     [m \<leftarrow> mods. plug_plugCategoryHash m = armor2PlugCategoryHashesByName_general ext] \<and>
   combatMods (beforeSearch ext items mods defs tier) =
     [m \<leftarrow> mods. plug_plugCategoryHash m \<noteq> armor2PlugCategoryHashesByName_general ext \<and>
        plug_plugCategoryHash m \<in> set (combatCompatiblePlugCategoryHashes ext)] \<and>
   raidMods (beforeSearch ext items mods defs tier) =
     [m \<leftarrow> mods. plug_plugCategoryHash m \<noteq> armor2PlugCategoryHashesByName_general ext \<and>
        plug_plugCategoryHash m \<notin> set (combatCompatiblePlugCategoryHashes ext) \<and>
        plug_plugCategoryHash m \<in> set (raidModPlugCategoryHashes ext)] \<and>
   Map_get (assignments (beforeSearch ext items mods defs tier)) k =
     (if k \<in> item_id ` set items
      then Some [m \<leftarrow> mods.
             plug_plugCategoryHash m \<noteq> armor2PlugCategoryHashesByName_general ext \<and>
             plug_plugCategoryHash m \<notin> set (combatCompatiblePlugCategoryHashes ext) \<and>
             plug_plugCategoryHash m \<notin> set (raidModPlugCategoryHashes ext) \<and>
             map_option item_id (itemForMod ext items m) = Some k]
      else None) \<and>
   (itemForMod ext items md = Some item \<longleftrightarrow>
      (\<exists>i < length items. items ! i = item \<and>
         Some (plug_plugCategoryHash md) = bucketsToCategories ext (bucket_hash (items ! i)) \<and>
         (\<forall>j < i. Some (plug_plugCategoryHash md) \<noteq>
                     bucketsToCategories ext (bucket_hash (items ! j))))) \<and>
   (plug_plugCategoryHash md \<noteq> armor2PlugCategoryHashesByName_general ext \<and>
    plug_plugCategoryHash md \<notin> set (combatCompatiblePlugCategoryHashes ext) \<and>
    plug_plugCategoryHash md \<notin> set (raidModPlugCategoryHashes ext) \<and>
    (\<forall>it \<in> set items. Some (plug_plugCategoryHash md) \<noteq> bucketsToCategories ext (bucket_hash it))
    \<longrightarrow>
      md \<notin> set (generalMods (beforeSearch ext items mods defs tier)) \<and>
      md \<notin> set (combatMods (beforeSearch ext items mods defs tier)) \<and>
      md \<notin> set (raidMods (beforeSearch ext items mods defs tier)) \<and>
      (\<forall>k' l. Map_get (assignments (beforeSearch ext items mods defs tier)) k' = Some l \<longrightarrow>
         md \<notin> set l))"
proof -
  let ?st = "beforeSearch ext items mods defs tier"
  have g: "generalMods ?st =
     [m \<leftarrow> mods. plug_plugCategoryHash m = armor2PlugCategoryHashesByName_general ext]"
    by (simp add: beforeSearch_def Let_def partitionMods_generalMods initialLocals_def)
  have c: "combatMods ?st =
     [m \<leftarrow> mods. plug_plugCategoryHash m \<noteq> armor2PlugCategoryHashesByName_general ext \<and>
        plug_plugCategoryHash m \<in> set (combatCompatiblePlugCategoryHashes ext)]"
    by (simp add: beforeSearch_def Let_def partitionMods_combatMods initialLocals_def)
  have r: "raidMods ?st =
     [m \<leftarrow> mods. plug_plugCategoryHash m \<noteq> armor2PlugCategoryHashesByName_general ext \<and>
        plug_plugCategoryHash m \<notin> set (combatCompatiblePlugCategoryHashes ext) \<and>
        plug_plugCategoryHash m \<in> set (raidModPlugCategoryHashes ext)]"
    by (simp add: beforeSearch_def Let_def partitionMods_raidMods initialLocals_def)
  note a = assignments_beforeSearch[of ext items mods defs tier]
  have f: "itemForMod ext items md = Some item \<longleftrightarrow>
      (\<exists>i < length items. items ! i = item \<and>
         Some (plug_plugCategoryHash md) = bucketsToCategories ext (bucket_hash (items ! i)) \<and>
         (\<forall>j < i. Some (plug_plugCategoryHash md) \<noteq>
                     bucketsToCategories ext (bucket_hash (items ! j))))"
    unfolding itemForMod_def find_Some_iff by auto
  have d: "md \<notin> set (generalMods ?st) \<and> md \<notin> set (combatMods ?st) \<and>
      md \<notin> set (raidMods ?st) \<and>
      (\<forall>k' l. Map_get (assignments ?st) k' = Some l \<longrightarrow> md \<notin> set l)"
    if "plug_plugCategoryHash md \<noteq> armor2PlugCategoryHashesByName_general ext"
       "plug_plugCategoryHash md \<notin> set (combatCompatiblePlugCategoryHashes ext)"
       "plug_plugCategoryHash md \<notin> set (raidModPlugCategoryHashes ext)"
       "\<forall>it \<in> set items. Some (plug_plugCategoryHash md) \<noteq>
          bucketsToCategories ext (bucket_hash it)"
  proof -
    from that(4) have none: "itemForMod ext items md = None"
      by (simp add: itemForMod_def find_None_iff)
    show ?thesis
      unfolding g c r a using that(1-3) none by (auto split: if_splits)
  qed
  from g c r a f d show ?thesis by blast
qed

text \<open>
  Six mods over the five items: one per bucket, two for the first item, and the mod of
  the unknown category 9, which ends up nowhere.
\<close>

theorem partition_witness:
  "generalMods (beforeSearch exampleExternals fiveItems
     [anyCostMod, arcCombatMod, strayMod, arcRaidMod, arcSlotMod, costlessMod] () 10) = [anyCostMod] \<and>
   combatMods (beforeSearch exampleExternals fiveItems
     [anyCostMod, arcCombatMod, strayMod, arcRaidMod, arcSlotMod, costlessMod] () 10) = [arcCombatMod] \<and>
   raidMods (beforeSearch exampleExternals fiveItems
     [anyCostMod, arcCombatMod, strayMod, arcRaidMod, arcSlotMod, costlessMod] () 10) = [arcRaidMod] \<and>
   assignments (beforeSearch exampleExternals fiveItems
     [anyCostMod, arcCombatMod, strayMod, arcRaidMod, arcSlotMod, costlessMod] () 10) =
     [(''a'', [arcSlotMod, costlessMod]), (''b'', []), (''c'', []), (''d'', []), (''e'', [])] \<and>
   itemForMod exampleExternals fiveItems arcSlotMod = Some arcItem \<and>
   itemForMod exampleExternals fiveItems strayMod = None \<and>
   strayMod \<notin> set (generalMods (beforeSearch exampleExternals fiveItems
     [anyCostMod, arcCombatMod, strayMod, arcRaidMod, arcSlotMod, costlessMod] () 10)) \<and>
   strayMod \<notin> set (combatMods (beforeSearch exampleExternals fiveItems
     [anyCostMod, arcCombatMod, strayMod, arcRaidMod, arcSlotMod, costlessMod] () 10)) \<and>
   strayMod \<notin> set (raidMods (beforeSearch exampleExternals fiveItems
     [anyCostMod, arcCombatMod, strayMod, arcRaidMod, arcSlotMod, costlessMod] () 10))"
  using partition_classifies_mods_in_order
          [where ext = exampleExternals and items = fiveItems and
             mods = "[anyCostMod, arcCombatMod, strayMod, arcRaidMod, arcSlotMod, costlessMod]" and
             defs = "()" and tier = 10 and md = strayMod and k = "''a''" and item = arcItem]
  by (simp add: solver_defs example_defs)

text \<open>
  C2. What \<open>getModAssignments\<close> returns is the mapping as partitioning left it: each
  item id with the slot-specific mods committed to it, and no other key. None of the
  three search loops changes the mapping, from whatever state and over whatever
  permutations it runs, so this holds whether or not a triple is accepted.
\<close>

theorem getModAssignments_returns_partition_result:
  "getModAssignments ext items mods defs tier =
     assignments (partitionMods ext items mods (initialLocals items)) \<and>
   assignments (raidModLoop ext items combatP generalP rps st) = assignments st \<and>
   assignments (generalModLoop ext items rps combatP gps st) = assignments st \<and>
   assignments (combatModLoop ext items gps rps cps st) = assignments st \<and>
   Map_get (getModAssignments ext items mods defs tier) k =
     (if k \<in> item_id ` set items
      then Some [md \<leftarrow> mods.
             plug_plugCategoryHash md \<noteq> armor2PlugCategoryHashesByName_general ext \<and>
             plug_plugCategoryHash md \<notin> set (combatCompatiblePlugCategoryHashes ext) \<and>
             plug_plugCategoryHash md \<notin> set (raidModPlugCategoryHashes ext) \<and>
             map_option item_id (itemForMod ext items md) = Some k]
      else None)"
proof -
  have "Map_get (getModAssignments ext items mods defs tier) k =
          Map_get (assignments (beforeSearch ext items mods defs tier)) k"
    by (simp add: getModAssignments_def assignments_afterSearch beforeSearch_def Let_def)
  then show ?thesis
    by (simp add: getModAssignments_def assignments_afterSearch assignments_beforeSearch
          raidModLoop_frame generalModLoop_frame combatModLoop_frame)
qed

text \<open>
  A run in which one triple is accepted and another is rejected; the mapping holds the
  two slot-specific mods and nothing of the combat mod.
\<close>

theorem getModAssignments_examples:
  "accepted (afterSearch exampleExternals fiveItems [arcSlotMod, arcCombatMod, costlessMod] () 3) \<noteq> {} \<and>
   getModAssignments exampleExternals fiveItems [arcSlotMod, arcCombatMod, costlessMod] () 3 =
     [(''a'', [arcSlotMod, costlessMod]), (''b'', []), (''c'', []), (''d'', []), (''e'', [])] \<and>
   (inFront arcCombatMod, allNull, allNull) \<notin>
     accepted (afterSearch exampleExternals fiveItems [arcSlotMod, arcCombatMod, costlessMod] () 3)"
proof -
  have "(allNull, allNull, allNull) \<in>
     accepted (afterSearch exampleExternals fiveItems [arcSlotMod, arcCombatMod, costlessMod] () 3)"
    by (simp add: accepted_afterSearch solver_defs example_defs)
  then have "accepted (afterSearch exampleExternals fiveItems
       [arcSlotMod, arcCombatMod, costlessMod] () 3) \<noteq> {}" by blast
  moreover have "(inFront arcCombatMod, allNull, allNull) \<notin>
     accepted (afterSearch exampleExternals fiveItems [arcSlotMod, arcCombatMod, costlessMod] () 3)"
    by (simp add: accepted_afterSearch solver_defs example_defs)
  moreover have "getModAssignments exampleExternals fiveItems
       [arcSlotMod, arcCombatMod, costlessMod] () 3 =
     [(''a'', [arcSlotMod, costlessMod]), (''b'', []), (''c'', []), (''d'', []), (''e'', [])]"
    using getModAssignments_returns_partition_result
            [of exampleExternals fiveItems "[arcSlotMod, arcCombatMod, costlessMod]" "()" 3]
    by (simp add: solver_defs example_defs)
  ultimately show ?thesis by blast
qed

text \<open>
  C9 as stated fails: the function validates nothing. With one slot and a mod of
  amount -3 it returns the mapping computed from that input.
\<close>

theorem malformed_input_is_solved:
  "malformedInput [arcItem] [negativeSlotMod] \<and>
   length [arcItem] = 1 \<and>
   map_option energyCost (plug_energyCost negativeSlotMod) = Some (- 3) \<and>
   getModAssignments exampleExternals [arcItem] [negativeSlotMod] () 10 =
     [(''a'', [negativeSlotMod])]"
  by (simp add: getModAssignments_def assignments_afterSearch malformedInput_def
        solver_defs example_defs)

text \<open>
  C9, amended. For malformed input (a number of slots other than five, or a negative
  amount) the solver raises no error and returns a mapping as for any other input: one
  entry per distinct item id, each holding the slot-specific mods committed to it.
\<close>

theorem malformed_input_gets_a_mapping:
  "malformedInput items mods \<longrightarrow>
     distinct (map fst (getModAssignments ext items mods defs tier)) \<and>
     fst ` set (getModAssignments ext items mods defs tier) = item_id ` set items \<and>
     (\<forall>item \<in> set items.
        Map_get (getModAssignments ext items mods defs tier) (item_id item) =
          Some [m \<leftarrow> mods.
             plug_plugCategoryHash m \<noteq> armor2PlugCategoryHashesByName_general ext \<and>
             plug_plugCategoryHash m \<notin> set (combatCompatiblePlugCategoryHashes ext) \<and>
             plug_plugCategoryHash m \<notin> set (raidModPlugCategoryHashes ext) \<and>
             map_option item_id (itemForMod ext items m) = Some (item_id item)])"
proof -
  have keys: "map fst (getModAssignments ext items mods defs tier) =
      map fst (initAssignments items [])"
    by (simp add: getModAssignments_def assignments_afterSearch partitionMods_frame
          initialLocals_def)
  have "distinct (map fst (initAssignments items ([] :: assignment_map)))"
    by (rule initAssignments_keys_distinct) simp
  with keys have d: "distinct (map fst (getModAssignments ext items mods defs tier))" by simp
  from keys have "set (map fst (getModAssignments ext items mods defs tier)) =
      set (map fst (initAssignments items []))" by simp
  then have s: "fst ` set (getModAssignments ext items mods defs tier) = item_id ` set items"
    by (simp add: initAssignments_keys_set)
  have "getModAssignments ext items mods defs tier =
      assignments (beforeSearch ext items mods defs tier)"
    by (simp add: getModAssignments_def assignments_afterSearch beforeSearch_def Let_def)
  then have g: "\<forall>item \<in> set items.
        Map_get (getModAssignments ext items mods defs tier) (item_id item) =
          Some [m \<leftarrow> mods.
             plug_plugCategoryHash m \<noteq> armor2PlugCategoryHashesByName_general ext \<and>
             plug_plugCategoryHash m \<notin> set (combatCompatiblePlugCategoryHashes ext) \<and>
             plug_plugCategoryHash m \<notin> set (raidModPlugCategoryHashes ext) \<and>
             map_option item_id (itemForMod ext items m) = Some (item_id item)]"
    by (simp add: assignments_beforeSearch)
  from d s g show ?thesis by blast
qed

text \<open>Three slots, two of them of one id, and a negative amount.\<close>

theorem malformed_input_witness:
  "malformedInput [arcItem, noEnergyItem, arcItem] [negativeSlotMod, arcCombatMod] \<and>
   map fst (getModAssignments exampleExternals [arcItem, noEnergyItem, arcItem]
      [negativeSlotMod, arcCombatMod] () 10) = [''a'', ''b''] \<and>
   Map_get (getModAssignments exampleExternals [arcItem, noEnergyItem, arcItem]
      [negativeSlotMod, arcCombatMod] () 10) (item_id arcItem) = Some [negativeSlotMod]"
  using malformed_input_gets_a_mapping
          [where ext = exampleExternals and items = "[arcItem, noEnergyItem, arcItem]" and
             mods = "[negativeSlotMod, arcCombatMod]" and defs = "()" and tier = 10]
  by (simp add: getModAssignments_def assignments_afterSearch malformedInput_def
        solver_defs example_defs)

text \<open>The state of an id is built from the last item that carries the id.\<close>

lemma find_snoc:
  "find P (xs @ [x]) = (case find P xs of None \<Rightarrow> (if P x then Some x else None) | Some y \<Rightarrow> Some y)"
  by (induction xs) auto

lemma keyBy_fold_find:
  "fold (\<lambda>item m. m(item_id item \<mapsto> item)) items m k =
     (case find (\<lambda>it. item_id it = k) (rev items) of None \<Rightarrow> m k | Some it \<Rightarrow> Some it)"
proof (induction items arbitrary: m)
  case Nil
  show ?case by simp
next
  case (Cons x items)
  have "fold (\<lambda>item m. m(item_id item \<mapsto> item)) (x # items) m k =
        (case find (\<lambda>it. item_id it = k) (rev items) of
           None \<Rightarrow> (m(item_id x \<mapsto> x)) k
         | Some it \<Rightarrow> Some it)"
    by (simp add: Cons.IH del: fun_upd_apply)
  then show ?case
    by (cases "find (\<lambda>it. item_id it = k) (rev items)") (auto simp: find_snoc fun_upd_same fun_upd_other simp del: fun_upd_apply)
qed

lemma keyBy_find: "keyBy items k = find (\<lambda>it. item_id it = k) (rev items)"
  by (simp add: keyBy_def keyBy_fold_find split: option.splits)

lemma find_SomeD: "find P xs = Some x \<Longrightarrow> P x \<and> x \<in> set xs"
  by (induction xs) (auto split: if_splits)

lemma itemEnergies_beforeSearch_general:
  "itemEnergies (beforeSearch ext items mods defs tier) k =
     map_option
       (\<lambda>item.
          \<lparr>used =
             sum_list (map (\<lambda>md. case plug_energyCost md of None \<Rightarrow> 0 | Some c \<Rightarrow> energyCost c)
               [md \<leftarrow> mods.
                  plug_plugCategoryHash md \<noteq> armor2PlugCategoryHashesByName_general ext \<and>
                  plug_plugCategoryHash md \<notin> set (combatCompatiblePlugCategoryHashes ext) \<and>
                  plug_plugCategoryHash md \<notin> set (raidModPlugCategoryHashes ext) \<and>
                  map_option item_id (itemForMod ext items md) = Some k]),
           capacity = upgradeSpendTierToMaxEnergy ext defs tier item,
           etype =
             (case energy item of
                None \<Rightarrow> DestinyEnergyType_Any
              | Some e \<Rightarrow>
                  if canSwapEnergyFromUpgradeSpendTier ext defs tier item
                  then DestinyEnergyType_Any
                  else item_energyType e)\<rparr>)
       (find (\<lambda>it. item_id it = k) (rev items))"
proof (cases "find (\<lambda>it. item_id it = k) (rev items)")
  case None
  then show ?thesis by (simp add: itemEnergies_beforeSearch keyBy_find)
next
  case (Some it)
  from find_SomeD[OF this] have "item_id it = k" "it \<in> set (rev items)"
    by simp_all
  then have "item_id it = k" "k \<in> item_id ` set items" by auto
  with Some show ?thesis
    by (simp add: itemEnergies_beforeSearch keyBy_find energyOfItem_def
          assignments_beforeSearch sumBy_def energyCostOf_Some)
qed

text \<open>
  C10 as stated fails in one detail: the state's type is also \<open>Any\<close> for an item that
  has energy of type \<open>Any\<close> itself, though it has a descriptor and may not swap; and
  for an Arc item that may not swap when a later item without energy carries its id.
\<close>

theorem anyEnergyItem_state_is_Any:
  "energy anyEnergyItem \<noteq> None \<and>
   \<not> canSwapEnergyFromUpgradeSpendTier exampleExternals () 10 anyEnergyItem \<and>
   map_option etype (itemEnergies (beforeSearch exampleExternals fiveItems [] () 10)
     (item_id anyEnergyItem)) = Some DestinyEnergyType_Any \<and>
   energy arcItem = Some \<lparr>item_energyType = 1\<rparr> \<and>
   \<not> canSwapEnergyFromUpgradeSpendTier exampleExternals () 10 arcItem \<and>
   map_option etype (itemEnergies (beforeSearch exampleExternals [arcItem, noEnergyTwin] [] () 10)
     (item_id ([arcItem, noEnergyTwin] ! 0))) = Some DestinyEnergyType_Any"
  by (simp add: solver_defs example_defs)

text \<open>
  C10, amended. None of the three search loops changes \<open>itemEnergies\<close>, from whatever
  state and over whatever permutations it runs: every check reads the states built
  before the search and the current arrangements only, so the states are the same for
  every branch, and a triple is accepted exactly when its arrangements are among the
  generated ones and pass their checks against the states as built. There is one state
  per item id, built from the last item that carries the id, which is the item itself
  when the ids are distinct: \<open>used\<close> is the sum of the costs of the slot-specific mods
  committed to the id (0 for a mod without cost), \<open>capacity\<close> is what
  \<open>upgradeSpendTierToMaxEnergy\<close> gives for that item, and the type is \<open>Any\<close> when that
  item has no energy or may swap it, and that item's own energy type otherwise. An id
  of no item has no state.
\<close>

theorem itemEnergies_built_once_and_never_mutated:
  "itemEnergies (raidModLoop ext items combatP generalP rps st) = itemEnergies st \<and>
   itemEnergies (generalModLoop ext items rps combatP gps st) = itemEnergies st \<and>
   itemEnergies (combatModLoop ext items gps rps cps st) = itemEnergies st \<and>
   itemEnergies (afterSearch ext items mods defs tier) =
     itemEnergies (beforeSearch ext items mods defs tier) \<and>
   itemEnergies (beforeSearch ext items mods defs tier) k =
     map_option
       (\<lambda>item.
          \<lparr>used =
             sum_list (map (\<lambda>md. case plug_energyCost md of None \<Rightarrow> 0 | Some c \<Rightarrow> energyCost c)
               [md \<leftarrow> mods.
                  plug_plugCategoryHash md \<noteq> armor2PlugCategoryHashesByName_general ext \<and>
                  plug_plugCategoryHash md \<notin> set (combatCompatiblePlugCategoryHashes ext) \<and>
                  plug_plugCategoryHash md \<notin> set (raidModPlugCategoryHashes ext) \<and>
                  map_option item_id (itemForMod ext items md) = Some k]),
           capacity = upgradeSpendTierToMaxEnergy ext defs tier item,
           etype =
             (case energy item of
                None \<Rightarrow> DestinyEnergyType_Any
              | Some e \<Rightarrow>
                  if canSwapEnergyFromUpgradeSpendTier ext defs tier item
                  then DestinyEnergyType_Any
                  else item_energyType e)\<rparr>)
       (find (\<lambda>it. item_id it = k) (rev items)) \<and>
   (distinct (map item_id items) \<longrightarrow> item \<in> set items \<longrightarrow>
      find (\<lambda>it. item_id it = item_id item) (rev items) = Some item) \<and>
   ((cP, gP, rP) \<in> accepted (afterSearch ext items mods defs tier) \<longleftrightarrow>
      cP \<in> set (generatePermutationsOfFive ext
         (combatMods (beforeSearch ext items mods defs tier)) stringifyMods) \<and>
      gP \<in> set (generatePermutationsOfFive ext
         (generalMods (beforeSearch ext items mods defs tier)) stringifyMods) \<and>
      rP \<in> set (generatePermutationsOfFive ext
         (raidMods (beforeSearch ext items mods defs tier)) stringifyMods) \<and>
      combatItemLoop ext items (itemEnergies (beforeSearch ext items mods defs tier)) cP \<and>
      generalItemLoop items (itemEnergies (beforeSearch ext items mods defs tier)) cP gP \<and>
      raidItemLoop ext items (itemEnergies (beforeSearch ext items mods defs tier)) cP gP rP)"
proof -
  have frame: "itemEnergies (afterSearch ext items mods defs tier) =
     itemEnergies (beforeSearch ext items mods defs tier)"
    by (simp add: afterSearch_def Let_def combatModLoop_frame)
  have last: "find (\<lambda>it. item_id it = item_id item) (rev items) = Some item"
    if d: "distinct (map item_id items)" and m: "item \<in> set items"
    using keyBy_distinct[OF d m] by (simp add: keyBy_find)
  from frame last itemEnergies_beforeSearch_general[of ext items mods defs tier k]
    accepted_afterSearch[of cP gP rP ext items mods defs tier]
  show ?thesis
    by (simp add: raidModLoop_frame generalModLoop_frame combatModLoop_frame)
qed

text \<open>
  The first of the five items, with a committed mod of cost 5 and one without cost; the
  combat mod of cost 5 fits beside them under capacity 10. And two items of one id:
  the state of the id is built from the second.
\<close>

theorem itemEnergies_witness:
  "distinct (map item_id fiveItems) \<and> arcItem \<in> set fiveItems \<and>
   find (\<lambda>it. item_id it = item_id arcItem) (rev fiveItems) = Some arcItem \<and>
   itemEnergies (beforeSearch exampleExternals fiveItems [arcSlotMod, arcCombatMod, costlessMod] () 10)
     (item_id arcItem) = Some \<lparr>used = 5, capacity = 10, etype = 1\<rparr> \<and>
   itemEnergies (afterSearch exampleExternals fiveItems [arcSlotMod, arcCombatMod, costlessMod] () 10)
     (item_id arcItem) = Some \<lparr>used = 5, capacity = 10, etype = 1\<rparr> \<and>
   (inFront arcCombatMod, allNull, allNull) \<in>
     accepted (afterSearch exampleExternals fiveItems [arcSlotMod, arcCombatMod, costlessMod] () 10) \<and>
   find (\<lambda>it. item_id it = item_id arcItem) (rev [arcItem, noEnergyTwin]) = Some noEnergyTwin \<and>
   itemEnergies (beforeSearch exampleExternals [arcItem, noEnergyTwin] [arcSlotMod] () 10)
     (item_id arcItem) = Some \<lparr>used = 5, capacity = 10, etype = DestinyEnergyType_Any\<rparr>"
  using itemEnergies_built_once_and_never_mutated
          [where ext = exampleExternals and items = fiveItems and
             mods = "[arcSlotMod, arcCombatMod, costlessMod]" and defs = "()" and tier = 10 and
             item = arcItem and k = "item_id arcItem" and
             cP = "inFront arcCombatMod" and gP = allNull and rP = allNull]
        itemEnergies_built_once_and_never_mutated
          [where ext = exampleExternals and items = "[arcItem, noEnergyTwin]" and
             mods = "[arcSlotMod]" and defs = "()" and tier = 10 and k = "item_id arcItem"]
  by (simp add: solver_defs example_defs)

end
